theory Spec2Isabelle
  imports Main "HOL-Library.AList"
begin

section \<open>Python values, errors and dictionary primitives\<close>

text \<open>
  The converter works on the values that \<^verbatim>\<open>parse_xml_to_dict\<close> produces and that
  \<^verbatim>\<open>json.load\<close> reads back: text, dictionaries keyed by text, and lists. A dictionary is
  an association list in insertion order with pairwise different keys. Characters are the
  code points below 256.
\<close>

datatype ssv = Str string | Dict "(string \<times> ssv) list" | Lst "ssv list"

datatype py_error = TypeError | AttributeError | KeyError

definition py_bind :: "py_error + 'a \<Rightarrow> ('a \<Rightarrow> py_error + 'b) \<Rightarrow> py_error + 'b" where
  "py_bind m f = (case m of Inl e \<Rightarrow> Inl e | Inr x \<Rightarrow> f x)"

text \<open>\<^verbatim>\<open>for x in xs: state = step(x, state)\<close>, stopping at the first exception.\<close>

fun for_each :: "('x \<Rightarrow> 's \<Rightarrow> py_error + 's) \<Rightarrow> 'x list \<Rightarrow> 's \<Rightarrow> py_error + 's" where
  "for_each step [] s = Inr s"
| "for_each step (x # xs) s = py_bind (step x s) (for_each step xs)"

text \<open>\<^verbatim>\<open>sub in s\<close> on two strings: substring test.\<close>

fun is_substring :: "string \<Rightarrow> string \<Rightarrow> bool" where
  "is_substring sub [] = (sub = [])"
| "is_substring sub (c # s) = (take (length sub) (c # s) = sub \<or> is_substring sub s)"

text \<open>\<^verbatim>\<open>k in data\<close>: key membership on a dict, element membership on a list, substring
  test on a string.\<close>

definition py_contains :: "string \<Rightarrow> ssv \<Rightarrow> bool" where
  "py_contains k data =
     (case data of
        Dict d \<Rightarrow> k \<in> set (map fst d)
      | Lst xs \<Rightarrow> Str k \<in> set xs
      | Str s \<Rightarrow> is_substring k s)"

text \<open>\<^verbatim>\<open>data[k]\<close> with a string key.\<close>

definition py_index :: "ssv \<Rightarrow> string \<Rightarrow> py_error + ssv" where
  "py_index data k =
     (case data of
        Dict d \<Rightarrow> (case map_of d k of Some v \<Rightarrow> Inr v | None \<Rightarrow> Inl KeyError)
      | _ \<Rightarrow> Inl TypeError)"

text \<open>\<^verbatim>\<open>data.get(k)\<close> (\<open>None\<close> when the key is absent) and \<^verbatim>\<open>data.get(k, dflt)\<close>;
  only a dict has the method.\<close>

definition py_get :: "ssv \<Rightarrow> string \<Rightarrow> py_error + ssv option" where
  "py_get data k = (case data of Dict d \<Rightarrow> Inr (map_of d k) | _ \<Rightarrow> Inl AttributeError)"

definition py_get_default :: "ssv \<Rightarrow> string \<Rightarrow> ssv \<Rightarrow> py_error + ssv" where
  "py_get_default data k dflt =
     (case data of
        Dict d \<Rightarrow> Inr (case map_of d k of Some v \<Rightarrow> v | None \<Rightarrow> dflt)
      | _ \<Rightarrow> Inl AttributeError)"

text \<open>\<^verbatim>\<open>x if isinstance(x, list) else [x]\<close>.\<close>

definition as_list :: "ssv \<Rightarrow> ssv list" where
  "as_list v = (case v of Lst xs \<Rightarrow> xs | _ \<Rightarrow> [v])"

text \<open>Truth value of a value in a condition: empty text, dict and list are false.\<close>

definition py_truthy :: "ssv \<Rightarrow> bool" where
  "py_truthy v = (case v of Str s \<Rightarrow> s \<noteq> [] | Dict d \<Rightarrow> d \<noteq> [] | Lst xs \<Rightarrow> xs \<noteq> [])"

text \<open>\<^verbatim>\<open>a += b\<close>: text concatenates with text only; a list is extended by the items of
  any iterable (the characters of a text, the keys of a dict); a dict has no \<open>+=\<close>.\<close>

definition py_iadd :: "ssv \<Rightarrow> ssv \<Rightarrow> py_error + ssv" where
  "py_iadd a b =
     (case a of
        Str s \<Rightarrow> (case b of Str t \<Rightarrow> Inr (Str (s @ t)) | _ \<Rightarrow> Inl TypeError)
      | Lst xs \<Rightarrow>
          (case b of
             Str t \<Rightarrow> Inr (Lst (xs @ map (\<lambda>c. Str [c]) t))
           | Lst ys \<Rightarrow> Inr (Lst (xs @ ys))
           | Dict d \<Rightarrow> Inr (Lst (xs @ map (\<lambda>kv. Str (fst kv)) d)))
      | Dict d \<Rightarrow> Inl TypeError)"

text \<open>\<^verbatim>\<open>str.strip()\<close> and \<^verbatim>\<open>str.split(",")\<close>.\<close>

definition is_space :: "char \<Rightarrow> bool" where
  "is_space c = ((of_char c :: nat) \<in> {9, 10, 11, 12, 13, 28, 29, 30, 31, 32, 133, 160})"

definition strip :: "string \<Rightarrow> string" where
  "strip s = rev (dropWhile is_space (rev (dropWhile is_space s)))"

fun split_comma :: "string \<Rightarrow> string list" where
  "split_comma [] = [[]]"
| "split_comma (c # s) =
     (if c = CHR '','' then [] # split_comma s
      else (case split_comma s of w # ws \<Rightarrow> (c # w) # ws | [] \<Rightarrow> [[c]]))"

section \<open>convert_xml: the normalizer\<close>

text \<open>An \<^verbatim>\<open>ElementTree\<close> element: \<^verbatim>\<open>tag\<close>, the attribute dict \<^verbatim>\<open>attrib\<close>, \<^verbatim>\<open>text\<close>
  (\<open>None\<close> when absent; the selector is \<open>node_text\<close>) and the children in document order.\<close>

datatype xml = Element (tag: string) (attrib: "(string \<times> string) list")
  (node_text: "string option") (children: "xml list")

text \<open>\<^verbatim>\<open>s.replace(p, '')\<close> for a non-empty \<open>p\<close>: every occurrence, left to right.\<close>

function remove_all :: "string \<Rightarrow> string \<Rightarrow> string" where
  "remove_all p [] = []"
| "remove_all p (c # s) =
     (if p \<noteq> [] \<and> take (length p) (c # s) = p
      then remove_all p (drop (length p) (c # s))
      else c # remove_all p s)"
  by pat_completeness auto
termination
  by (relation "measure (\<lambda>(p, s). length s)") (auto simp: neq_Nil_conv)

definition gameSystemSchema :: string where
  "gameSystemSchema = ''{http://www.battlescribe.net/schema/gameSystemSchema}''"

definition catalogueSchema :: string where
  "catalogueSchema = ''{http://www.battlescribe.net/schema/catalogueSchema}''"

definition startswith :: "string \<Rightarrow> string \<Rightarrow> bool" where
  "startswith s p = (take (length p) s = p)"

definition clean_tag_name :: "string \<Rightarrow> string" where
  "clean_tag_name t =
     (if startswith t gameSystemSchema then remove_all gameSystemSchema t
      else if startswith t catalogueSchema then remove_all catalogueSchema t
      else t)"

text \<open>The body of the loop over the children: the first value under a key is stored bare, a
  second one turns the stored value into a two-element list, later ones are appended.\<close>

definition add_child :: "string \<Rightarrow> ssv \<Rightarrow> (string \<times> ssv) list \<Rightarrow> (string \<times> ssv) list" where
  "add_child clean_tag child_data result =
     (case map_of result clean_tag of
        Some old \<Rightarrow>
          AList.update clean_tag
            (case old of Lst xs \<Rightarrow> Lst (xs @ [child_data]) | _ \<Rightarrow> Lst [old, child_data]) result
      | None \<Rightarrow> result @ [(clean_tag, child_data)])"

text \<open>\<^verbatim>\<open>result.update(element.attrib)\<close> on the empty dict.\<close>

definition attrib_fields :: "(string \<times> string) list \<Rightarrow> (string \<times> ssv) list" where
  "attrib_fields as = fold (\<lambda>kv r. AList.update (fst kv) (Str (snd kv)) r) as []"

definition add_children :: "(string \<times> ssv) list \<Rightarrow> (string \<times> ssv) list \<Rightarrow> (string \<times> ssv) list" where
  "add_children cds result = fold (\<lambda>cd r. add_child (clean_tag_name (fst cd)) (snd cd) r) cds result"

fun parse_xml_to_dict :: "xml \<Rightarrow> ssv" where
  "parse_xml_to_dict (Element tg as tx cs) =
     (let result = add_children (map (\<lambda>c. (tag c, parse_xml_to_dict c)) cs) (attrib_fields as)
      in case tx of
           None \<Rightarrow> Dict result
         | Some t \<Rightarrow>
             if strip t \<noteq> [] then
               (if result \<noteq> [] then Dict (AList.update ''_text'' (Str (strip t)) result)
                else Str (strip t))
             else Dict result)"

section \<open>transform_battlescribe: the shared-rule registry\<close>

text \<open>What opening and decoding a JSON file gives: the file is missing, its content is not
  JSON, or it decodes to a value.\<close>

datatype json_file = Missing | Unparseable | Parsed ssv

text \<open>\<^verbatim>\<open>load_json_file\<close> catches every exception of \<^verbatim>\<open>open\<close> and \<^verbatim>\<open>json.load\<close> and
  returns the empty dict.\<close>

definition load_json_file :: "json_file \<Rightarrow> ssv" where
  "load_json_file f = (case f of Parsed v \<Rightarrow> v | Missing \<Rightarrow> Dict [] | Unparseable \<Rightarrow> Dict [])"

text \<open>\<^verbatim>\<open>self.shared_rules.add(x)\<close>: only text is hashable among the values.\<close>

definition set_add :: "ssv \<Rightarrow> string set \<Rightarrow> py_error + string set" where
  "set_add x rules = (case x of Str s \<Rightarrow> Inr (insert s rules) | _ \<Rightarrow> Inl TypeError)"

definition add_rule_name :: "ssv \<Rightarrow> string set \<Rightarrow> py_error + string set" where
  "add_rule_name rule rules =
     (if py_contains ''name'' rule
      then py_bind (py_index rule ''name'') (\<lambda>n. set_add n rules)
      else Inr rules)"

text \<open>The body of the \<^verbatim>\<open>try\<close> block of \<^verbatim>\<open>load_shared_rules\<close>, on the value that
  \<^verbatim>\<open>load_json_file\<close> returned and the current \<^verbatim>\<open>self.shared_rules\<close>.\<close>

definition load_shared_rules_body :: "ssv \<Rightarrow> string set \<Rightarrow> py_error + string set" where
  "load_shared_rules_body game_system_data rules =
     (if py_contains ''sharedRules'' game_system_data then
        py_bind (py_index game_system_data ''sharedRules'') (\<lambda>shared_rules.
          if py_contains ''rule'' shared_rules then
            py_bind (py_index shared_rules ''rule'') (\<lambda>rs.
              case rs of
                Lst rule_list \<Rightarrow> for_each add_rule_name rule_list rules
              | _ \<Rightarrow> add_rule_name rs rules)
          else Inr rules)
      else Inr rules)"

definition default_shared_rules :: "string set" where
  "default_shared_rules =
     {''Leader'', ''Pistol'', ''Hazardous'', ''Devastating Wounds'', ''Assault'',
      ''Extra Attacks'', ''Twin-linked'', ''Anti-'', ''Sustained Hits'', ''Heavy'',
      ''Melta'', ''Feel No Pain'', ''Blast'', ''Precision'', ''Indirect Fire'',
      ''Lance'', ''Lethal Hits'', ''Ignores Cover'', ''Rapid Fire'', ''Torrent'',
      ''Scouts'', ''Infiltrators'', ''Deep Strike'', ''Deadly Demise'', ''Stealth'',
      ''Super-Heavy Walker'', ''Lone Operative'', ''Hover'', ''Fights First'',
      ''Psychic'', ''Firing Deck'', ''One Shot''}"

text \<open>\<^verbatim>\<open>load_shared_rules\<close>: the \<^verbatim>\<open>except\<close> branch replaces the registry by the built-in
  names. The first argument is \<^verbatim>\<open>self.shared_rules\<close> before the call (\<^verbatim>\<open>set()\<close> after
  \<^verbatim>\<open>__init__\<close>), the result is the registry after it.\<close>

definition load_shared_rules :: "string set \<Rightarrow> json_file \<Rightarrow> string set" where
  "load_shared_rules rules f =
     (case load_shared_rules_body (load_json_file f) rules of
        Inr rules' \<Rightarrow> rules'
      | Inl e \<Rightarrow> default_shared_rules)"

section \<open>transform_battlescribe: the sub-extractors\<close>

text \<open>\<^verbatim>\<open>find_key_with_prefix\<close> returns the key when \<^verbatim>\<open>key_name in data\<close> and \<open>None\<close>
  otherwise. Every caller passes a non-empty literal, so the returned key is true in a
  condition exactly when it is not \<open>None\<close>.\<close>

definition find_key_with_prefix :: "ssv \<Rightarrow> string \<Rightarrow> string option" where
  "find_key_with_prefix data key_name = (if py_contains key_name data then Some key_name else None)"

text \<open>The recurring pair \<^verbatim>\<open>key = self.find_key_with_prefix(data, name)\<close>,
  \<^verbatim>\<open>if key: value = data[key]\<close>.\<close>

definition lookup_key :: "ssv \<Rightarrow> string \<Rightarrow> py_error + ssv option" where
  "lookup_key data key_name =
     (case find_key_with_prefix data key_name of
        None \<Rightarrow> Inr None
      | Some k \<Rightarrow> py_bind (py_index data k) (\<lambda>v. Inr (Some v)))"

text \<open>A two-level section such as \<^verbatim>\<open>infoLinks\<close>/\<^verbatim>\<open>infoLink\<close>: nothing happens unless both
  keys are found; then the loop runs over the list-coerced inner value.\<close>

definition over_section ::
  "ssv \<Rightarrow> string \<Rightarrow> string \<Rightarrow> (ssv \<Rightarrow> 's \<Rightarrow> py_error + 's) \<Rightarrow> 's \<Rightarrow> py_error + 's" where
  "over_section data outer inner step s =
     py_bind (lookup_key data outer) (\<lambda>sec.
       case sec of
         None \<Rightarrow> Inr s
       | Some section_value \<Rightarrow>
           py_bind (lookup_key section_value inner) (\<lambda>it.
             case it of
               None \<Rightarrow> Inr s
             | Some items \<Rightarrow> for_each step (as_list items) s))"

subsection \<open>Abilities\<close>

record ability =
  ab_name :: string
  ab_description :: ssv
  ab_showAbility :: bool
  ab_showDescription :: bool

record damaged_block =
  dmg_description :: string
  dmg_range :: string
  dmg_showDamagedAbility :: bool
  dmg_showDescription :: bool

record invul_block =
  inv_info :: string
  inv_showAtTop :: bool
  inv_showInfo :: bool
  inv_showInvulnerableSave :: bool
  inv_value :: string

record ability_set =
  core :: "string list"
  faction :: "string list"
  other :: "ability list"
  special :: "string list"
  wargear :: "string list"
  primarch :: "string list"
  damaged :: damaged_block
  invul :: invul_block

definition initial_abilities :: ability_set where
  "initial_abilities =
     \<lparr>core = [], faction = [''Oath of Moment''], other = [], special = [], wargear = [],
      primarch = [],
      damaged = \<lparr>dmg_description = '''', dmg_range = '''', dmg_showDamagedAbility = False,
                 dmg_showDescription = True\<rparr>,
      invul = \<lparr>inv_info = '''', inv_showAtTop = True, inv_showInfo = False,
               inv_showInvulnerableSave = True, inv_value = ''5+''\<rparr>\<rparr>"

text \<open>\<^verbatim>\<open>if name in self.shared_rules: abilities["core"].append(name)\<close>
  \<^verbatim>\<open>else: abilities["other"].append({...})\<close>. The membership test hashes the name, so a
  name that is a dict or a list raises before anything is stored; the stored names are text.\<close>

definition classify_ability ::
  "string set \<Rightarrow> ssv \<Rightarrow> ssv \<Rightarrow> bool \<Rightarrow> ability_set \<Rightarrow> py_error + ability_set" where
  "classify_ability shared_rules nm descr show_descr abilities =
     (case nm of
        Str s \<Rightarrow>
          if s \<in> shared_rules then Inr (abilities\<lparr>core := core abilities @ [s]\<rparr>)
          else Inr (abilities\<lparr>other := other abilities @
                 [\<lparr>ab_name = s, ab_description = descr, ab_showAbility = True,
                   ab_showDescription = show_descr\<rparr>]\<rparr>)
      | _ \<Rightarrow> Inl TypeError)"

definition modifier_step :: "ssv \<Rightarrow> ssv \<Rightarrow> py_error + ssv" where
  "modifier_step modifier rule_name =
     py_bind (py_get modifier ''type'') (\<lambda>ty.
       if ty = Some (Str ''append'') then
         py_bind (py_get modifier ''field'') (\<lambda>fld.
           if fld = Some (Str ''name'') then
             py_bind (py_get_default modifier ''value'' (Str '''')) (\<lambda>v. py_iadd rule_name v)
           else Inr rule_name)
       else Inr rule_name)"

definition info_link_rule_name :: "ssv \<Rightarrow> py_error + ssv" where
  "info_link_rule_name info_link =
     py_bind (py_get_default info_link ''name'' (Str '''')) (\<lambda>rule_name.
       if py_contains ''modifiers'' info_link then
         py_bind (py_index info_link ''modifiers'') (\<lambda>modifiers.
           py_bind (lookup_key modifiers ''modifier'') (\<lambda>m.
             case m of
               None \<Rightarrow> Inr rule_name
             | Some mv \<Rightarrow> for_each modifier_step (as_list mv) rule_name))
       else Inr rule_name)"

definition info_link_step :: "string set \<Rightarrow> ssv \<Rightarrow> ability_set \<Rightarrow> py_error + ability_set" where
  "info_link_step shared_rules info_link abilities =
     py_bind (info_link_rule_name info_link) (\<lambda>rule_name.
       classify_ability shared_rules rule_name (Str '''') False abilities)"

text \<open>The list branch and the single-value branch over \<^verbatim>\<open>characteristic\<close> run the same
  body; both are the loop over \<open>as_list\<close>.\<close>

definition ability_char_step ::
  "string set \<Rightarrow> ssv \<Rightarrow> ssv \<Rightarrow> ability_set \<Rightarrow> py_error + ability_set" where
  "ability_char_step shared_rules profile c abilities =
     py_bind (py_get c ''name'') (\<lambda>n.
       if n = Some (Str ''Description'') then
         py_bind (py_get_default profile ''name'' (Str '''')) (\<lambda>ability_name.
           py_bind (py_get_default c ''_text'' (Str '''')) (\<lambda>ability_description.
             classify_ability shared_rules ability_name ability_description True abilities))
       else Inr abilities)"

definition ability_profile_step ::
  "string set \<Rightarrow> ssv \<Rightarrow> ability_set \<Rightarrow> py_error + ability_set" where
  "ability_profile_step shared_rules profile abilities =
     py_bind (py_get profile ''typeId'') (\<lambda>tid.
       if tid = Some (Str ''9cc3-6d83-4dd3-9b64'') then
         over_section profile ''characteristics'' ''characteristic''
           (ability_char_step shared_rules profile) abilities
       else Inr abilities)"

definition extract_abilities :: "string set \<Rightarrow> ssv \<Rightarrow> py_error + ability_set" where
  "extract_abilities shared_rules selection_entry =
     py_bind (over_section selection_entry ''infoLinks'' ''infoLink''
                (info_link_step shared_rules) initial_abilities) (\<lambda>abilities.
       over_section selection_entry ''profiles'' ''profile''
         (ability_profile_step shared_rules) abilities)"

subsection \<open>Stats\<close>

text \<open>A stat row; a characteristic key is present in the Python dict only when the source
  has that characteristic, hence the options.\<close>

record stat =
  st_active :: bool
  st_name :: ssv
  st_showName :: bool
  st_showDamagedMarker :: bool
  st_m :: "ssv option"
  st_t :: "ssv option"
  st_sv :: "ssv option"
  st_w :: "ssv option"
  st_ld :: "ssv option"
  st_oc :: "ssv option"

text \<open>The \<^verbatim>\<open>if\<close>/\<^verbatim>\<open>elif\<close> chain reads \<^verbatim>\<open>char.get("name")\<close> in each test and
  \<^verbatim>\<open>char.get("_text", "")\<close> in the branch taken. Neither read has an effect and the second
  cannot raise once the first has not, so each is taken once.\<close>

definition stat_char_step :: "ssv \<Rightarrow> stat \<Rightarrow> py_error + stat" where
  "stat_char_step char stat =
     py_bind (py_get char ''name'') (\<lambda>n.
       py_bind (py_get_default char ''_text'' (Str '''')) (\<lambda>v.
         if n = Some (Str ''M'') then Inr (stat\<lparr>st_m := Some v\<rparr>)
         else if n = Some (Str ''T'') then Inr (stat\<lparr>st_t := Some v\<rparr>)
         else if n = Some (Str ''SV'') then Inr (stat\<lparr>st_sv := Some v\<rparr>)
         else if n = Some (Str ''W'') then Inr (stat\<lparr>st_w := Some v\<rparr>)
         else if n = Some (Str ''LD'') then Inr (stat\<lparr>st_ld := Some v\<rparr>)
         else if n = Some (Str ''OC'') then Inr (stat\<lparr>st_oc := Some v\<rparr>)
         else Inr stat))"

definition stat_profile_step :: "ssv \<Rightarrow> stat list \<Rightarrow> py_error + stat list" where
  "stat_profile_step profile stats =
     py_bind (py_get profile ''typeId'') (\<lambda>tid.
       if tid = Some (Str ''c547-1836-d8a-ff4f'') then
         py_bind (py_get_default profile ''name'' (Str '''')) (\<lambda>nm.
           py_bind (over_section profile ''characteristics'' ''characteristic'' stat_char_step
                      \<lparr>st_active = True, st_name = nm, st_showName = False,
                       st_showDamagedMarker = False, st_m = None, st_t = None, st_sv = None,
                       st_w = None, st_ld = None, st_oc = None\<rparr>) (\<lambda>stat.
             if py_truthy (st_name stat) then Inr (stats @ [stat]) else Inr stats))
       else Inr stats)"

definition extract_stats :: "ssv \<Rightarrow> py_error + stat list" where
  "extract_stats selection_entry =
     over_section selection_entry ''profiles'' ''profile'' stat_profile_step []"

subsection \<open>Weapons\<close>

record weapon_profile =
  wp_active :: bool
  wp_name :: string
  wp_range :: "ssv option"
  wp_attacks :: "ssv option"
  wp_skill :: "ssv option"
  wp_strength :: "ssv option"
  wp_ap :: "ssv option"
  wp_damage :: "ssv option"
  wp_keywords :: "string list option"

record weapon_group =
  wg_active :: bool
  wg_profiles :: "weapon_profile list"

text \<open>\<^verbatim>\<open>keywords_text = char.get("_text", "")\<close>, then, when it is true,
  \<^verbatim>\<open>[k.strip() for k in keywords_text.split(",")]\<close>; a non-empty dict or list has no
  \<^verbatim>\<open>split\<close>.\<close>

definition keywords_of_text :: "ssv \<Rightarrow> weapon_profile \<Rightarrow> py_error + weapon_profile" where
  "keywords_of_text keywords_text wp =
     (if py_truthy keywords_text then
        (case keywords_text of
           Str s \<Rightarrow> Inr (wp\<lparr>wp_keywords := Some (map strip (split_comma s))\<rparr>)
         | _ \<Rightarrow> Inl AttributeError)
      else Inr wp)"

definition weapon_char_step :: "ssv \<Rightarrow> weapon_profile \<Rightarrow> py_error + weapon_profile" where
  "weapon_char_step char wp =
     py_bind (py_get char ''name'') (\<lambda>n.
       py_bind (py_get_default char ''_text'' (Str '''')) (\<lambda>v.
         if n = Some (Str ''Range'') then Inr (wp\<lparr>wp_range := Some v\<rparr>)
         else if n = Some (Str ''A'') then Inr (wp\<lparr>wp_attacks := Some v\<rparr>)
         else if n = Some (Str ''BS'') then Inr (wp\<lparr>wp_skill := Some v\<rparr>)
         else if n = Some (Str ''S'') then Inr (wp\<lparr>wp_strength := Some v\<rparr>)
         else if n = Some (Str ''AP'') then Inr (wp\<lparr>wp_ap := Some v\<rparr>)
         else if n = Some (Str ''D'') then Inr (wp\<lparr>wp_damage := Some v\<rparr>)
         else if n = Some (Str ''Keywords'') then keywords_of_text v wp
         else Inr wp))"

text \<open>The dict \<^verbatim>\<open>weapon_groups\<close>, keyed by weapon name, in insertion order.
  \<^verbatim>\<open>weapon_groups[weapon_name]["profiles"].append(weapon_profile)\<close>:\<close>

definition append_profile ::
  "string \<Rightarrow> weapon_profile \<Rightarrow> (string \<times> weapon_group) list \<Rightarrow> (string \<times> weapon_group) list" where
  "append_profile weapon_name wp weapon_groups =
     map (\<lambda>(k, g). if k = weapon_name then (k, g\<lparr>wg_profiles := wg_profiles g @ [wp]\<rparr>) else (k, g))
       weapon_groups"

definition matches_weapon_type :: "string \<Rightarrow> ssv option \<Rightarrow> bool" where
  "matches_weapon_type weapon_type profile_type_id =
     ((weapon_type = ''ranged'' \<and> profile_type_id = Some (Str ''f77d-b953-8fa4-b762'')) \<or>
      (weapon_type = ''melee'' \<and> profile_type_id = Some (Str ''8a40-4aaa-c780-9046'')))"

text \<open>The body of the loop over the profiles of one nested entry. The test
  \<^verbatim>\<open>weapon_name not in weapon_groups\<close> hashes the name: a dict or list raises.\<close>

definition weapon_profile_step ::
  "string \<Rightarrow> ssv \<Rightarrow> (string \<times> weapon_group) list \<Rightarrow> py_error + (string \<times> weapon_group) list" where
  "weapon_profile_step weapon_type profile weapon_groups =
     py_bind (py_get profile ''typeId'') (\<lambda>profile_type_id.
       if matches_weapon_type weapon_type profile_type_id then
         py_bind (py_get_default profile ''name'' (Str '''')) (\<lambda>nm.
           case nm of
             Str weapon_name \<Rightarrow>
               (let groups = (if weapon_name \<notin> set (map fst weapon_groups)
                              then weapon_groups @
                                   [(weapon_name, \<lparr>wg_active = True, wg_profiles = []\<rparr>)]
                              else weapon_groups)
                in py_bind (over_section profile ''characteristics'' ''characteristic''
                              weapon_char_step
                              \<lparr>wp_active = True, wp_name = weapon_name, wp_range = None,
                               wp_attacks = None, wp_skill = None, wp_strength = None,
                               wp_ap = None, wp_damage = None, wp_keywords = None\<rparr>)
                     (\<lambda>wp. Inr (append_profile weapon_name wp groups)))
           | _ \<Rightarrow> Inl TypeError)
       else Inr weapon_groups)"

definition weapon_entry_step ::
  "string \<Rightarrow> ssv \<Rightarrow> (string \<times> weapon_group) list \<Rightarrow> py_error + (string \<times> weapon_group) list" where
  "weapon_entry_step weapon_type entry weapon_groups =
     over_section entry ''profiles'' ''profile'' (weapon_profile_step weapon_type) weapon_groups"

text \<open>\<^verbatim>\<open>weapons\<close> stays \<open>[]\<close> unless both keys are found; then it is
  \<^verbatim>\<open>list(weapon_groups.values())\<close>.\<close>

definition extract_weapons :: "ssv \<Rightarrow> string \<Rightarrow> py_error + weapon_group list" where
  "extract_weapons selection_entry weapon_type =
     py_bind (over_section selection_entry ''selectionEntries'' ''selectionEntry''
                (weapon_entry_step weapon_type) []) (\<lambda>weapon_groups.
       Inr (map snd weapon_groups))"

subsection \<open>Keywords and points\<close>

definition keyword_step :: "ssv \<Rightarrow> ssv list \<Rightarrow> py_error + ssv list" where
  "keyword_step link keywords =
     (if py_contains ''name'' link
      then py_bind (py_index link ''name'') (\<lambda>n. Inr (keywords @ [n]))
      else Inr keywords)"

definition extract_keywords :: "ssv \<Rightarrow> py_error + ssv list" where
  "extract_keywords selection_entry =
     over_section selection_entry ''categoryLinks'' ''categoryLink'' keyword_step []"

record point_cost =
  pt_name :: string
  pt_model :: string
  pt_cost :: ssv

definition point_step :: "ssv \<Rightarrow> point_cost list \<Rightarrow> py_error + point_cost list" where
  "point_step cost points =
     py_bind (py_get cost ''name'') (\<lambda>n.
       if n = Some (Str ''pts'') then
         py_bind (py_get_default cost ''value'' (Str ''0'')) (\<lambda>v.
           Inr (points @ [\<lparr>pt_name = ''model'', pt_model = ''1'', pt_cost = v\<rparr>]))
       else Inr points)"

definition extract_points :: "ssv \<Rightarrow> py_error + point_cost list" where
  "extract_points selection_entry =
     over_section selection_entry ''costs'' ''cost'' point_step []"

subsection \<open>Datasheets and enhancements\<close>

text \<open>The f-string \<^verbatim>\<open>f"1 {name}"\<close> of \<^verbatim>\<open>composition\<close> is kept as its literal prefix and
  the interpolated value.\<close>

record datasheet =
  ds_id :: string
  ds_name :: ssv
  ds_cardType :: string
  ds_factions :: "string list"
  ds_faction_id :: string
  ds_source :: string
  ds_abilities :: ability_set
  ds_stats :: "stat list"
  ds_rangedWeapons :: "weapon_group list"
  ds_meleeWeapons :: "weapon_group list"
  ds_keywords :: "ssv list"
  ds_points :: "point_cost list"
  ds_composition :: "(string \<times> ssv) list"
  ds_fluff :: string
  ds_leader :: string
  ds_loadout :: string
  ds_transport :: string
  ds_wargear :: "string list"

text \<open>\<^verbatim>\<open>extract_datasheet\<close>; \<open>uid\<close> is the text of the fresh \<^verbatim>\<open>uuid.uuid4()\<close>. The values of
  the dict literal are evaluated in the order written.\<close>

definition extract_datasheet :: "string set \<Rightarrow> string \<Rightarrow> ssv \<Rightarrow> py_error + datasheet option" where
  "extract_datasheet shared_rules uid selection_entry =
     py_bind (py_get selection_entry ''type'') (\<lambda>ty.
       if ty \<noteq> Some (Str ''model'') then Inr None
       else
         py_bind (py_get_default selection_entry ''name'' (Str '''')) (\<lambda>nm.
         py_bind (extract_abilities shared_rules selection_entry) (\<lambda>abilities.
         py_bind (extract_stats selection_entry) (\<lambda>stats.
         py_bind (extract_weapons selection_entry ''ranged'') (\<lambda>ranged.
         py_bind (extract_weapons selection_entry ''melee'') (\<lambda>melee.
         py_bind (extract_keywords selection_entry) (\<lambda>keywords.
         py_bind (extract_points selection_entry) (\<lambda>points.
           Inr (Some
             \<lparr>ds_id = uid, ds_name = nm, ds_cardType = ''DataCard'',
              ds_factions = [''Dark Angels''], ds_faction_id = ''CHDA'', ds_source = ''40k-10e'',
              ds_abilities = abilities, ds_stats = stats, ds_rangedWeapons = ranged,
              ds_meleeWeapons = melee, ds_keywords = keywords, ds_points = points,
              ds_composition = [(''1 '', nm)], ds_fluff = '''', ds_leader = '''',
              ds_loadout = '''', ds_transport = '''', ds_wargear = []\<rparr>)))))))))"

record enhancement =
  en_name :: ssv
  en_id :: string
  en_cost :: string
  en_keywords :: "string list"
  en_excludes :: "string list"
  en_description :: ssv
  en_faction_id :: string
  en_source :: string
  en_cardType :: string
  en_detachment :: string

definition enhancement_char_step :: "ssv \<Rightarrow> enhancement \<Rightarrow> py_error + enhancement" where
  "enhancement_char_step c enh =
     py_bind (py_get c ''name'') (\<lambda>n.
       if n = Some (Str ''Description'') then
         py_bind (py_get_default c ''_text'' (Str '''')) (\<lambda>v. Inr (enh\<lparr>en_description := v\<rparr>))
       else Inr enh)"

text \<open>\<^verbatim>\<open>if "characteristics" in profile and "characteristic" in profile["characteristics"]\<close>,
  then the loop over the list-coerced \<^verbatim>\<open>profile["characteristics"]["characteristic"]\<close>.\<close>

definition enhancement_profile_step :: "ssv \<Rightarrow> enhancement \<Rightarrow> py_error + enhancement" where
  "enhancement_profile_step profile enh =
     py_bind (py_get profile ''typeId'') (\<lambda>tid.
       if tid = Some (Str ''9cc3-6d83-4dd3-9b64'') then
         (if py_contains ''characteristics'' profile then
            py_bind (py_index profile ''characteristics'') (\<lambda>characteristics.
              if py_contains ''characteristic'' characteristics then
                py_bind (py_index characteristics ''characteristic'') (\<lambda>char.
                  for_each enhancement_char_step (as_list char) enh)
              else Inr enh)
          else Inr enh)
       else Inr enh)"

definition extract_enhancements :: "string \<Rightarrow> ssv \<Rightarrow> py_error + enhancement option" where
  "extract_enhancements uid selection_entry =
     py_bind (py_get selection_entry ''type'') (\<lambda>ty.
       if ty \<noteq> Some (Str ''upgrade'') then Inr None
       else
         py_bind (py_get_default selection_entry ''name'' (Str '''')) (\<lambda>nm.
           (let enh = \<lparr>en_name = nm, en_id = uid, en_cost = ''0'',
                       en_keywords = [''Dark Angels''], en_excludes = [],
                       en_description = Str '''', en_faction_id = ''CHDA'',
                       en_source = ''40k-10e'', en_cardType = ''enhancement'',
                       en_detachment = ''Wrath of the Rock''\<rparr>
            in py_bind
                 (if py_contains ''profiles'' selection_entry then
                    py_bind (py_index selection_entry ''profiles'') (\<lambda>profiles.
                      case profiles of
                        Dict d \<Rightarrow>
                          (if py_contains ''profile'' profiles then
                             py_bind (py_index profiles ''profile'') (\<lambda>p.
                               for_each enhancement_profile_step (as_list p) enh)
                           else Inr enh)
                      | _ \<Rightarrow> Inr enh)
                  else Inr enh)
                 (\<lambda>enh'. Inr (Some enh')))))"

section \<open>Notions used in the statements\<close>

text \<open>An ability set that differs from the initial one in \<open>core\<close> and \<open>other\<close> at most.\<close>

definition keeps_constants :: "ability_set \<Rightarrow> bool" where
  "keeps_constants a = (a\<lparr>core := [], other := []\<rparr> = initial_abilities)"

text \<open>The dict of a node before its text is looked at: attributes, then children.\<close>

definition fields_of :: "xml \<Rightarrow> (string \<times> ssv) list" where
  "fields_of e =
     add_children (map (\<lambda>c. (tag c, parse_xml_to_dict c)) (children e)) (attrib_fields (attrib e))"

text \<open>The children of a node whose namespace-stripped tag is \<open>t\<close>, in document order.\<close>

definition same_tag_children :: "xml \<Rightarrow> string \<Rightarrow> xml list" where
  "same_tag_children e t = filter (\<lambda>c. clean_tag_name (tag c) = t) (children e)"

text \<open>\<^verbatim>\<open>element.text and element.text.strip()\<close>.\<close>

definition has_text :: "xml \<Rightarrow> bool" where
  "has_text e = (case node_text e of None \<Rightarrow> False | Some t \<Rightarrow> strip t \<noteq> [])"

definition is_list :: "ssv \<Rightarrow> bool" where
  "is_list v = (case v of Lst xs \<Rightarrow> True | _ \<Rightarrow> False)"

text \<open>What one more child does to the value stored under its tag.\<close>

definition merge_value :: "ssv option \<Rightarrow> ssv \<Rightarrow> ssv option" where
  "merge_value old d =
     (case old of
        None \<Rightarrow> Some d
      | Some (Lst xs) \<Rightarrow> Some (Lst (xs @ [d]))
      | Some v \<Rightarrow> Some (Lst [v, d]))"

text \<open>A modifier record that appends to the field \<open>name\<close>, the text it appends, and
  whether what it appends is text (or absent, which appends nothing).\<close>

definition is_name_append :: "(string \<times> ssv) list \<Rightarrow> bool" where
  "is_name_append m =
     (map_of m ''type'' = Some (Str ''append'') \<and> map_of m ''field'' = Some (Str ''name''))"

definition text_valued :: "(string \<times> ssv) list \<Rightarrow> bool" where
  "text_valued m = (case map_of m ''value'' of None \<Rightarrow> True | Some (Str v) \<Rightarrow> True | Some _ \<Rightarrow> False)"

definition append_value :: "(string \<times> ssv) list \<Rightarrow> string" where
  "append_value m = (case map_of m ''value'' of Some (Str v) \<Rightarrow> v | _ \<Rightarrow> '''')"

text \<open>\<open>a\<close> is \<open>a0\<close> with the names of its \<open>other\<close> records sorted by the registry: the
  registered names, in order, are \<open>core\<close>; the records of the others stay.\<close>

definition classified :: "string set \<Rightarrow> ability_set \<Rightarrow> ability_set \<Rightarrow> bool" where
  "classified shared_rules a a0 =
     (core a0 = [] \<and>
      core a = filter (\<lambda>n. n \<in> shared_rules) (map ab_name (other a0)) \<and>
      other a = filter (\<lambda>x. ab_name x \<notin> shared_rules) (other a0))"

text \<open>The row emitted for a cost record, and the test that selects a cost.\<close>

definition point_row :: "(string \<times> ssv) list \<Rightarrow> point_cost" where
  "point_row c =
     \<lparr>pt_name = ''model'', pt_model = ''1'',
      pt_cost = (case map_of c ''value'' of Some v \<Rightarrow> v | None \<Rightarrow> Str ''0'')\<rparr>"

definition is_pts :: "(string \<times> ssv) list \<Rightarrow> bool" where
  "is_pts c = (map_of c ''name'' = Some (Str ''pts''))"

text \<open>\<^verbatim>\<open><selectionEntry type="model" name="Intercessor Squad"><costs>\<close>
  \<^verbatim>\<open><cost name="pts" value="100"/></costs></selectionEntry>\<close>\<close>

definition intercessor_squad :: xml where
  "intercessor_squad =
     Element ''selectionEntry'' [(''type'', ''model''), (''name'', ''Intercessor Squad'')] None
       [Element ''costs'' [] None
          [Element ''cost'' [(''name'', ''pts''), (''value'', ''100'')] None []]]"

text \<open>The weapon profiles the extractor builds, in source order: the loops of
  \<^verbatim>\<open>extract_weapons\<close> with the loop body run on an empty \<^verbatim>\<open>weapon_groups\<close> and the
  profile it stored there (none when the profile node is skipped) appended to a list.\<close>

definition weapon_profile_log ::
  "string \<Rightarrow> ssv \<Rightarrow> weapon_profile list \<Rightarrow> py_error + weapon_profile list" where
  "weapon_profile_log weapon_type profile log =
     py_bind (weapon_profile_step weapon_type profile []) (\<lambda>groups.
       Inr (log @ concat (map (\<lambda>kg. wg_profiles (snd kg)) groups)))"

definition collected_profiles :: "ssv \<Rightarrow> string \<Rightarrow> py_error + weapon_profile list" where
  "collected_profiles selection_entry weapon_type =
     over_section selection_entry ''selectionEntries'' ''selectionEntry''
       (\<lambda>entry. over_section entry ''profiles'' ''profile'' (weapon_profile_log weapon_type)) []"

text \<open>The different elements of a list, each at its first occurrence.\<close>

definition first_occurrences :: "'a list \<Rightarrow> 'a list" where
  "first_occurrences xs = rev (remdups (rev xs))"

text \<open>The group of the name \<open>n\<close>: all profiles of that name, in the order of the list; and
  the dict of the groups of a list of profiles, keyed by name in order of first occurrence.\<close>

definition group_named :: "weapon_profile list \<Rightarrow> string \<Rightarrow> weapon_group" where
  "group_named ps n = \<lparr>wg_active = True, wg_profiles = filter (\<lambda>p. wp_name p = n) ps\<rparr>"

definition grouped :: "weapon_profile list \<Rightarrow> (string \<times> weapon_group) list" where
  "grouped ps = map (\<lambda>n. (n, group_named ps n)) (first_occurrences (map wp_name ps))"

text \<open>A field that, when present, holds text.\<close>

definition text_if_present :: "(string \<times> ssv) list \<Rightarrow> string \<Rightarrow> bool" where
  "text_if_present d k = (case map_of d k of None \<Rightarrow> True | Some (Str s) \<Rightarrow> True | Some _ \<Rightarrow> False)"

text \<open>The records among the items of a list.\<close>

definition records_of :: "ssv list \<Rightarrow> (string \<times> ssv) list list" where
  "records_of xs = concat (map (\<lambda>x. case x of Dict d \<Rightarrow> [d] | _ \<Rightarrow> []) xs)"

text \<open>The records of a two-level section such as \<open>profiles\<close>/\<open>profile\<close> of a record:
  none when either key is absent.\<close>

definition section_items :: "(string \<times> ssv) list \<Rightarrow> string \<Rightarrow> string \<Rightarrow> (string \<times> ssv) list list" where
  "section_items d outer inner =
     (case map_of d outer of
        Some (Dict sec) \<Rightarrow>
          (case map_of sec inner of None \<Rightarrow> [] | Some items \<Rightarrow> records_of (as_list items))
      | _ \<Rightarrow> [])"

text \<open>The shape of a two-level section: when the outer key is present its value is a
  record, and when the inner key is present in it, every item of its list-coerced value is
  a record that satisfies \<open>ok\<close>.\<close>

definition section_of ::
  "(string \<times> ssv) list \<Rightarrow> string \<Rightarrow> string \<Rightarrow> ((string \<times> ssv) list \<Rightarrow> bool) \<Rightarrow> bool" where
  "section_of d outer inner ok =
     (case map_of d outer of
        None \<Rightarrow> True
      | Some (Dict sec) \<Rightarrow>
          (case map_of sec inner of
             None \<Rightarrow> True
           | Some items \<Rightarrow>
               list_all (\<lambda>x. case x of Dict i \<Rightarrow> ok i | _ \<Rightarrow> False) (as_list items))
      | Some _ \<Rightarrow> False)"

text \<open>The shape of the nodes the extractors read: present parts are records, present names
  and texts are text. Nothing is required to be present.\<close>

definition wf_characteristic :: "(string \<times> ssv) list \<Rightarrow> bool" where
  "wf_characteristic c = text_if_present c ''_text''"

definition wf_profile :: "(string \<times> ssv) list \<Rightarrow> bool" where
  "wf_profile p =
     (text_if_present p ''name'' \<and>
      section_of p ''characteristics'' ''characteristic'' wf_characteristic)"

definition wf_info_link :: "(string \<times> ssv) list \<Rightarrow> bool" where
  "wf_info_link il =
     (text_if_present il ''name'' \<and> section_of il ''modifiers'' ''modifier'' text_valued)"

definition wf_nested_entry :: "(string \<times> ssv) list \<Rightarrow> bool" where
  "wf_nested_entry e = section_of e ''profiles'' ''profile'' wf_profile"

definition wf_entry :: "(string \<times> ssv) list \<Rightarrow> bool" where
  "wf_entry se =
     (section_of se ''infoLinks'' ''infoLink'' wf_info_link \<and>
      section_of se ''profiles'' ''profile'' wf_profile \<and>
      section_of se ''selectionEntries'' ''selectionEntry'' wf_nested_entry \<and>
      section_of se ''categoryLinks'' ''categoryLink'' (\<lambda>link. True) \<and>
      section_of se ''costs'' ''cost'' (\<lambda>cost. True))"

text \<open>\<^verbatim>\<open>profile.get("name", "")\<close> and the test for the unit profile type.\<close>

definition resolved_name :: "(string \<times> ssv) list \<Rightarrow> ssv" where
  "resolved_name p = (case map_of p ''name'' of Some v \<Rightarrow> v | None \<Rightarrow> Str '''')"

definition is_unit_profile :: "(string \<times> ssv) list \<Rightarrow> bool" where
  "is_unit_profile p = (map_of p ''typeId'' = Some (Str ''c547-1836-d8a-ff4f''))"

text \<open>\<^verbatim>\<open>char.get("_text", "")\<close>, and the text of the last characteristic named \<open>k\<close>, if any.\<close>

definition text_of :: "(string \<times> ssv) list \<Rightarrow> ssv" where
  "text_of c = (case map_of c ''_text'' of Some v \<Rightarrow> v | None \<Rightarrow> Str '''')"

definition characteristic_text :: "(string \<times> ssv) list list \<Rightarrow> string \<Rightarrow> ssv option" where
  "characteristic_text cs k =
     (case filter (\<lambda>c. map_of c ''name'' = Some (Str k)) cs of
        [] \<Rightarrow> None
      | c # cs' \<Rightarrow> Some (text_of (last (c # cs'))))"

text \<open>The stat row of a unit profile.\<close>

definition stat_row :: "(string \<times> ssv) list \<Rightarrow> stat" where
  "stat_row p =
     (let cs = section_items p ''characteristics'' ''characteristic''
      in \<lparr>st_active = True, st_name = resolved_name p, st_showName = False,
          st_showDamagedMarker = False,
          st_m = characteristic_text cs ''M'', st_t = characteristic_text cs ''T'',
          st_sv = characteristic_text cs ''SV'', st_w = characteristic_text cs ''W'',
          st_ld = characteristic_text cs ''LD'', st_oc = characteristic_text cs ''OC''\<rparr>)"

text \<open>A later value, when there is one, replaces the earlier.\<close>

definition later_value :: "'a option \<Rightarrow> 'a option \<Rightarrow> 'a option" where
  "later_value old new = (case new of None \<Rightarrow> old | Some v \<Rightarrow> Some v)"

text \<open>A unit profile named Azrael whose single characteristic has text and no attribute:
  \<^verbatim>\<open><selectionEntry type="model" name="Azrael"><profiles>\<close>
  \<^verbatim>\<open><profile typeId="c547-1836-d8a-ff4f" name="Azrael"><characteristics>\<close>
  \<^verbatim>\<open><characteristic>6</characteristic></characteristics></profile></profiles></selectionEntry>\<close>\<close>

definition azrael_bare_characteristic :: xml where
  "azrael_bare_characteristic =
     Element ''selectionEntry'' [(''type'', ''model''), (''name'', ''Azrael'')] None
       [Element ''profiles'' [] None
          [Element ''profile'' [(''typeId'', ''c547-1836-d8a-ff4f''), (''name'', ''Azrael'')] None
             [Element ''characteristics'' [] None
                [Element ''characteristic'' [] (Some ''6'') []]]]]"

text \<open>The text of a name, empty when the name is absent: \<^verbatim>\<open>x.get("name", "")\<close> on a
  record whose name, when present, is text.\<close>

definition name_text :: "(string \<times> ssv) list \<Rightarrow> string" where
  "name_text d = (case map_of d ''name'' of Some (Str s) \<Rightarrow> s | _ \<Rightarrow> '''')"

text \<open>The tests for a \<open>Description\<close> characteristic and for the ability profile type.\<close>

definition is_description :: "(string \<times> ssv) list \<Rightarrow> bool" where
  "is_description c = (map_of c ''name'' = Some (Str ''Description''))"

definition is_ability_profile :: "(string \<times> ssv) list \<Rightarrow> bool" where
  "is_ability_profile p = (map_of p ''typeId'' = Some (Str ''9cc3-6d83-4dd3-9b64''))"

text \<open>The rule name of an infoLink: its name followed by what its name-appending modifiers
  append, in order; and the record that an unregistered infoLink leaves in \<open>other\<close>.\<close>

definition link_rule_name :: "(string \<times> ssv) list \<Rightarrow> string" where
  "link_rule_name il =
     name_text il @
     concat (map append_value (filter is_name_append (section_items il ''modifiers'' ''modifier'')))"

definition link_ability :: "(string \<times> ssv) list \<Rightarrow> ability" where
  "link_ability il =
     \<lparr>ab_name = link_rule_name il, ab_description = Str '''', ab_showAbility = True,
      ab_showDescription = False\<rparr>"

text \<open>The abilities of an ability profile: one for each \<open>Description\<close> characteristic,
  under the name of the profile, with the text of the characteristic.\<close>

definition profile_abilities :: "(string \<times> ssv) list \<Rightarrow> ability list" where
  "profile_abilities p =
     map (\<lambda>c. \<lparr>ab_name = name_text p, ab_description = text_of c, ab_showAbility = True,
                ab_showDescription = True\<rparr>)
       (filter is_description (section_items p ''characteristics'' ''characteristic''))"

text \<open>The abilities an entry gives rise to, in source order: those of its infoLinks, then
  those of its ability profiles.\<close>

definition derived_abilities :: "(string \<times> ssv) list \<Rightarrow> ability list" where
  "derived_abilities se =
     map link_ability (section_items se ''infoLinks'' ''infoLink'') @
     concat (map profile_abilities
               (filter is_ability_profile (section_items se ''profiles'' ''profile'')))"

text \<open>Sorting a list of abilities into an ability set: the registered names are appended to
  \<open>core\<close>, the records of the others to \<open>other\<close>.\<close>

definition add_abilities :: "string set \<Rightarrow> ability list \<Rightarrow> ability_set \<Rightarrow> ability_set" where
  "add_abilities shared_rules xs a =
     a\<lparr>core := core a @ filter (\<lambda>n. n \<in> shared_rules) (map ab_name xs),
       other := other a @ filter (\<lambda>x. ab_name x \<notin> shared_rules) xs\<rparr>"

text \<open>The value \<open>f\<close> of the last item that satisfies \<open>P\<close>, if any.\<close>

definition last_match :: "('c \<Rightarrow> bool) \<Rightarrow> ('c \<Rightarrow> 'v) \<Rightarrow> 'c list \<Rightarrow> 'v option" where
  "last_match P f cs = (case filter P cs of [] \<Rightarrow> None | c # cs' \<Rightarrow> Some (f (last (c # cs'))))"

text \<open>The text of a characteristic as a string, empty when absent; the test for a
  \<open>Keywords\<close> characteristic with text; and the keywords of its text.\<close>

definition text_string :: "(string \<times> ssv) list \<Rightarrow> string" where
  "text_string c = (case map_of c ''_text'' of Some (Str s) \<Rightarrow> s | _ \<Rightarrow> '''')"

definition is_keywords :: "(string \<times> ssv) list \<Rightarrow> bool" where
  "is_keywords c = (map_of c ''name'' = Some (Str ''Keywords'') \<and> text_string c \<noteq> '''')"

definition keyword_list :: "(string \<times> ssv) list \<Rightarrow> string list" where
  "keyword_list c = map strip (split_comma (text_string c))"

text \<open>The weapon profile of a profile node: its resolved name, the text of the last
  characteristic of each kind that it has, and the keywords of its last \<open>Keywords\<close>
  characteristic with text.\<close>

definition weapon_row :: "(string \<times> ssv) list \<Rightarrow> weapon_profile" where
  "weapon_row p =
     (let cs = section_items p ''characteristics'' ''characteristic''
      in \<lparr>wp_active = True, wp_name = name_text p,
          wp_range = characteristic_text cs ''Range'', wp_attacks = characteristic_text cs ''A'',
          wp_skill = characteristic_text cs ''BS'', wp_strength = characteristic_text cs ''S'',
          wp_ap = characteristic_text cs ''AP'', wp_damage = characteristic_text cs ''D'',
          wp_keywords = last_match is_keywords keyword_list cs\<rparr>)"

text \<open>The profile nodes of the weapon type asked for, and the weapon profiles of an entry:
  those of the matching profile nodes of all its nested entries, in source order.\<close>

definition is_weapon_profile :: "string \<Rightarrow> (string \<times> ssv) list \<Rightarrow> bool" where
  "is_weapon_profile weapon_type p = matches_weapon_type weapon_type (map_of p ''typeId'')"

definition weapon_profiles :: "(string \<times> ssv) list \<Rightarrow> string \<Rightarrow> weapon_profile list" where
  "weapon_profiles se weapon_type =
     map weapon_row
       (filter (is_weapon_profile weapon_type)
          (concat (map (\<lambda>entry. section_items entry ''profiles'' ''profile'')
                     (section_items se ''selectionEntries'' ''selectionEntry''))))"

text \<open>The values the sub-extractors return on a record: the names of the category links
  that have one, a row for each \<open>pts\<close> cost, a row for each named unit profile, the sorted
  abilities, and the weapon profiles grouped by name.\<close>

definition keywords_of :: "(string \<times> ssv) list \<Rightarrow> ssv list" where
  "keywords_of se =
     concat (map (\<lambda>link. case map_of link ''name'' of Some v \<Rightarrow> [v] | None \<Rightarrow> [])
               (section_items se ''categoryLinks'' ''categoryLink''))"

definition points_of :: "(string \<times> ssv) list \<Rightarrow> point_cost list" where
  "points_of se = map point_row (filter is_pts (section_items se ''costs'' ''cost''))"

definition stats_of :: "(string \<times> ssv) list \<Rightarrow> stat list" where
  "stats_of se =
     map stat_row
       (filter (\<lambda>p. is_unit_profile p \<and> resolved_name p \<noteq> Str '''')
          (section_items se ''profiles'' ''profile''))"

definition abilities_of :: "string set \<Rightarrow> (string \<times> ssv) list \<Rightarrow> ability_set" where
  "abilities_of shared_rules se = add_abilities shared_rules (derived_abilities se) initial_abilities"

definition weapons_of :: "(string \<times> ssv) list \<Rightarrow> string \<Rightarrow> weapon_group list" where
  "weapons_of se weapon_type =
     map (group_named (weapon_profiles se weapon_type))
       (first_occurrences (map wp_name (weapon_profiles se weapon_type)))"

text \<open>The datasheet of an entry of type \<open>model\<close>.\<close>

definition datasheet_of :: "string set \<Rightarrow> string \<Rightarrow> (string \<times> ssv) list \<Rightarrow> datasheet" where
  "datasheet_of shared_rules uid se =
     \<lparr>ds_id = uid, ds_name = resolved_name se, ds_cardType = ''DataCard'',
      ds_factions = [''Dark Angels''], ds_faction_id = ''CHDA'', ds_source = ''40k-10e'',
      ds_abilities = abilities_of shared_rules se, ds_stats = stats_of se,
      ds_rangedWeapons = weapons_of se ''ranged'', ds_meleeWeapons = weapons_of se ''melee'',
      ds_keywords = keywords_of se, ds_points = points_of se,
      ds_composition = [(''1 '', resolved_name se)], ds_fluff = '''', ds_leader = '''',
      ds_loadout = '''', ds_transport = '''', ds_wargear = []\<rparr>"

text \<open>The last element of a list, or a default for the empty list.\<close>

definition last_or :: "'a \<Rightarrow> 'a list \<Rightarrow> 'a" where
  "last_or d xs = (case xs of [] \<Rightarrow> d | x # xs' \<Rightarrow> last (x # xs'))"

text \<open>The texts of the \<open>Description\<close> characteristics of the ability profiles of an
  entry, in source order; the last one is the description of the enhancement.\<close>

definition enhancement_descriptions :: "(string \<times> ssv) list \<Rightarrow> ssv list" where
  "enhancement_descriptions se =
     concat (map (\<lambda>p. map text_of (filter is_description
                          (section_items p ''characteristics'' ''characteristic'')))
               (filter is_ability_profile (section_items se ''profiles'' ''profile'')))"

definition enhancement_of :: "string \<Rightarrow> (string \<times> ssv) list \<Rightarrow> enhancement" where
  "enhancement_of uid se =
     \<lparr>en_name = resolved_name se, en_id = uid, en_cost = ''0'', en_keywords = [''Dark Angels''],
      en_excludes = [], en_description = last_or (Str '''') (enhancement_descriptions se),
      en_faction_id = ''CHDA'', en_source = ''40k-10e'', en_cardType = ''enhancement'',
      en_detachment = ''Wrath of the Rock''\<rparr>"

section \<open>Basic facts about the error monad and the loops\<close>

lemma py_bind_Inl [simp]: "py_bind (Inl e) f = Inl e"
  by (simp add: py_bind_def)

lemma py_bind_Inr [simp]: "py_bind (Inr x) f = f x"
  by (simp add: py_bind_def)

lemma py_bind_eq_Inr: "py_bind m f = Inr y \<longleftrightarrow> (\<exists>x. m = Inr x \<and> f x = Inr y)"
  by (cases m) simp_all

lemma for_each_invariant:
  assumes "for_each step xs s = Inr s'" and "P s"
    and "\<And>x t t'. x \<in> set xs \<Longrightarrow> P t \<Longrightarrow> step x t = Inr t' \<Longrightarrow> P t'"
  shows "P s'"
  using assms
proof (induction xs arbitrary: s)
  case Nil
  then show ?case by simp
next
  case (Cons x xs)
  from Cons.prems(1) obtain t where t: "step x s = Inr t" and rest: "for_each step xs t = Inr s'"
    by (auto simp: py_bind_eq_Inr)
  have "P t" using Cons.prems(3) [of x s t] Cons.prems(2) t by simp
  then show ?case using Cons.IH [OF rest] Cons.prems(3) by (meson list.set_intros(2))
qed

lemma over_section_invariant:
  assumes "over_section data outer inner step s = Inr s'" and "P s"
    and "\<And>x t t'. P t \<Longrightarrow> step x t = Inr t' \<Longrightarrow> P t'"
  shows "P s'"
proof -
  from assms(1) consider "s' = s" | items where "for_each step (as_list items) s = Inr s'"
    by (auto simp: over_section_def py_bind_eq_Inr split: option.splits)
  then show ?thesis
  proof cases
    case 1
    then show ?thesis using assms(2) by simp
  next
    case 2
    then show ?thesis using for_each_invariant [of step _ s s' P] assms(2,3) by blast
  qed
qed

lemma py_contains_Dict: "py_contains k (Dict d) \<longleftrightarrow> map_of d k \<noteq> None"
  by (simp add: py_contains_def map_of_eq_None_iff)

lemma lookup_key_Dict: "lookup_key (Dict d) k = Inr (map_of d k)"
  by (auto simp: lookup_key_def find_key_with_prefix_def py_contains_Dict py_index_def)

lemma over_section_Dict:
  "over_section (Dict d) outer inner step s =
     (case map_of d outer of
        None \<Rightarrow> Inr s
      | Some sec \<Rightarrow>
          py_bind (lookup_key sec inner) (\<lambda>it.
            case it of None \<Rightarrow> Inr s | Some items \<Rightarrow> for_each step (as_list items) s))"
  by (simp add: over_section_def lookup_key_Dict)

lemma for_each_simulation:
  assumes "for_each f xs s = Inr s'" and "R s t"
    and "\<And>x u v u'. R u v \<Longrightarrow> f x u = Inr u' \<Longrightarrow> \<exists>v'. g x v = Inr v' \<and> R u' v'"
  shows "\<exists>t'. for_each g xs t = Inr t' \<and> R s' t'"
  using assms(1,2)
proof (induction xs arbitrary: s t)
  case Nil
  then show ?case by auto
next
  case (Cons x xs)
  from Cons.prems(1) obtain u where u: "f x s = Inr u" and rest: "for_each f xs u = Inr s'"
    by (auto simp: py_bind_eq_Inr)
  from assms(3) [OF Cons.prems(2) u] obtain v where v: "g x t = Inr v" "R u v" by blast
  from Cons.IH [OF rest v(2)] show ?case using v(1) by simp
qed

lemma over_section_simulation:
  assumes "over_section data outer inner f s = Inr s'" and "R s t"
    and "\<And>x u v u'. R u v \<Longrightarrow> f x u = Inr u' \<Longrightarrow> \<exists>v'. g x v = Inr v' \<and> R u' v'"
  shows "\<exists>t'. over_section data outer inner g t = Inr t' \<and> R s' t'"
proof (cases "lookup_key data outer")
  case (Inl err)
  then show ?thesis using assms(1) by (simp add: over_section_def)
next
  case (Inr sec)
  note outer_found = Inr
  show ?thesis
  proof (cases sec)
    case None
    then show ?thesis using assms(1,2) outer_found by (simp add: over_section_def)
  next
    case (Some section_value)
    note sec_some = Some
    show ?thesis
    proof (cases "lookup_key section_value inner")
      case (Inl err)
      then show ?thesis using assms(1) outer_found sec_some by (simp add: over_section_def)
    next
      case (Inr it)
      show ?thesis
      proof (cases it)
        case None
        then show ?thesis
          using assms(1,2) outer_found sec_some Inr by (simp add: over_section_def)
      next
        case (Some items)
        then have "for_each f (as_list items) s = Inr s'"
          using assms(1) outer_found sec_some Inr by (simp add: over_section_def)
        from for_each_simulation [where R = R and g = g, OF this assms(2)] assms(3)
        obtain t' where "for_each g (as_list items) t = Inr t'" "R s' t'" by blast
        then show ?thesis using outer_found sec_some Inr Some by (simp add: over_section_def)
      qed
    qed
  qed
qed

lemma for_each_abstraction:
  assumes "\<And>x t. f x (h t) = py_bind (g x t) (\<lambda>t'. Inr (h t'))"
  shows "for_each f xs (h t) = py_bind (for_each g xs t) (\<lambda>t'. Inr (h t'))"
proof (induction xs arbitrary: t)
  case Nil
  then show ?case by simp
next
  case (Cons x xs)
  show ?case
  proof (cases "g x t")
    case (Inl e)
    then show ?thesis using assms [of x t] by simp
  next
    case (Inr t')
    then show ?thesis using assms [of x t] Cons.IH [of t'] by simp
  qed
qed

lemma over_section_abstraction:
  assumes "\<And>x t. f x (h t) = py_bind (g x t) (\<lambda>t'. Inr (h t'))"
  shows "over_section data outer inner f (h t) =
           py_bind (over_section data outer inner g t) (\<lambda>t'. Inr (h t'))"
proof -
  have loop: "\<And>xs. for_each f xs (h t) = py_bind (for_each g xs t) (\<lambda>t'. Inr (h t'))"
    using for_each_abstraction [of f h g] assms by blast
  show ?thesis
    by (cases "lookup_key data outer")
      (auto simp: over_section_def loop py_bind_def split: option.splits sum.splits)
qed

lemmas py_defs = py_contains_def py_index_def py_get_def py_get_default_def as_list_def
  py_truthy_def py_iadd_def find_key_with_prefix_def lookup_key_def over_section_def

lemmas abilities_defs = extract_abilities_def info_link_step_def info_link_rule_name_def
  modifier_step_def classify_ability_def ability_profile_step_def ability_char_step_def
  initial_abilities_def

section \<open>The normalizer\<close>

lemma parse_unfold:
  "parse_xml_to_dict e =
     (case node_text e of
        None \<Rightarrow> Dict (fields_of e)
      | Some t \<Rightarrow>
          if strip t \<noteq> [] then
            (if fields_of e \<noteq> [] then Dict (AList.update ''_text'' (Str (strip t)) (fields_of e))
             else Str (strip t))
          else Dict (fields_of e))"
  by (cases e) (auto simp: fields_of_def Let_def split: option.splits)

lemma parse_not_list: "\<not> is_list (parse_xml_to_dict e)"
  by (simp add: parse_unfold is_list_def split: option.splits)

lemma add_child_lookup:
  "map_of (add_child t d r) k = (if k = t then merge_value (map_of r t) d else map_of r k)"
  by (auto simp: add_child_def merge_value_def update_conv' map_add_def
      split: option.splits ssv.splits)

lemma add_children_lookup:
  "map_of (add_children cds r) k =
     foldl merge_value (map_of r k) (map snd (filter (\<lambda>cd. clean_tag_name (fst cd) = k) cds))"
  unfolding add_children_def
  by (induction cds arbitrary: r) (simp_all add: add_child_lookup)

lemma foldl_merge_list:
  "foldl merge_value (Some (Lst xs)) ds = Some (Lst (xs @ ds))"
  by (induction ds arbitrary: xs) (simp_all add: merge_value_def)

lemma foldl_merge_None:
  assumes "\<forall>d \<in> set ds. \<not> is_list d"
  shows "foldl merge_value None ds =
           (case ds of [] \<Rightarrow> None | [d] \<Rightarrow> Some d | d # d' # ds' \<Rightarrow> Some (Lst ds))"
proof (cases ds)
  case Nil
  then show ?thesis by simp
next
  case (Cons d ds1)
  note outer = Cons
  show ?thesis
  proof (cases ds1)
    case Nil
    then show ?thesis using outer by (simp add: merge_value_def)
  next
    case (Cons d' ds')
    have "\<not> is_list d" using assms outer by simp
    then have "merge_value (Some d) d' = Some (Lst [d, d'])"
      by (cases d) (simp_all add: merge_value_def is_list_def)
    then show ?thesis using outer Cons by (simp add: merge_value_def foldl_merge_list)
  qed
qed

lemma attrib_fold_lookup:
  "map_of (fold (\<lambda>kv r. AList.update (fst kv) (Str (snd kv)) r) as r) k = None \<longleftrightarrow>
     k \<notin> fst ` set as \<and> map_of r k = None"
  by (induction as arbitrary: r) (auto simp: update_conv')

lemma attrib_fields_lookup: "map_of (attrib_fields as) k = None \<longleftrightarrow> k \<notin> fst ` set as"
  by (simp add: attrib_fields_def attrib_fold_lookup)

lemma fields_of_lookup:
  assumes "t \<notin> fst ` set (attrib e)"
  shows "map_of (fields_of e) t =
     (case same_tag_children e t of
        [] \<Rightarrow> None
      | [c] \<Rightarrow> Some (parse_xml_to_dict c)
      | c # c' # cs \<Rightarrow> Some (Lst (map parse_xml_to_dict (same_tag_children e t))))"
proof -
  let ?ds = "map parse_xml_to_dict (same_tag_children e t)"
  have "map snd (filter (\<lambda>cd. clean_tag_name (fst cd) = t)
           (map (\<lambda>c. (tag c, parse_xml_to_dict c)) (children e))) = ?ds"
    by (simp add: same_tag_children_def filter_map comp_def)
  moreover have "map_of (attrib_fields (attrib e)) t = None"
    using assms by (simp add: attrib_fields_lookup)
  ultimately have "map_of (fields_of e) t = foldl merge_value None ?ds"
    by (simp add: fields_of_def add_children_lookup)
  moreover have "\<forall>d \<in> set ?ds. \<not> is_list d"
    by (auto simp: parse_not_list)
  ultimately show ?thesis
    by (simp add: foldl_merge_None split: list.splits)
qed

lemma add_child_not_empty: "add_child t d r \<noteq> []"
  by (cases r) (auto simp: add_child_def split: option.splits)

lemma add_children_empty: "add_children cds r = [] \<longleftrightarrow> cds = [] \<and> r = []"
proof (induction cds arbitrary: r)
  case Nil
  then show ?case by (simp add: add_children_def)
next
  case (Cons cd cds)
  have "add_children (cd # cds) r = add_children cds (add_child (clean_tag_name (fst cd)) (snd cd) r)"
    by (simp add: add_children_def)
  then show ?case using Cons.IH add_child_not_empty by simp
qed

lemma attrib_fields_empty: "attrib_fields as = [] \<longleftrightarrow> as = []"
proof -
  have "map_of (attrib_fields as) = Map.empty \<longleftrightarrow> as = []"
    using attrib_fields_lookup [of as] by (cases as) (auto simp: fun_eq_iff)
  then show ?thesis by (metis map_of_eq_empty_iff)
qed

lemma fields_of_empty: "fields_of e = [] \<longleftrightarrow> attrib e = [] \<and> children e = []"
  by (auto simp: fields_of_def add_children_empty attrib_fields_empty)

lemmas normalizer_defs = add_children_def add_child_def attrib_fields_def
  clean_tag_name_def startswith_def gameSystemSchema_def catalogueSchema_def strip_def
  is_space_def

text \<open>
  C7. The node's own text is trimmed. With non-blank text, a node that has an attribute or a
  child gets the trimmed text under the key \<open>_text\<close> (its other fields unchanged), and a
  node with neither becomes the bare trimmed text. With absent or blank text the result is
  the dict of attributes and children as it is: no scalar, and no \<open>_text\<close> field unless an
  attribute or a child carries that name.
\<close>

theorem text_handling:
  "(node_text e = Some t \<and> strip t \<noteq> [] \<and> (attrib e \<noteq> [] \<or> children e \<noteq> []) \<longrightarrow>
      (\<exists>r. parse_xml_to_dict e = Dict r \<and> map_of r ''_text'' = Some (Str (strip t)) \<and>
           (\<forall>k. k \<noteq> ''_text'' \<longrightarrow> map_of r k = map_of (fields_of e) k))) \<and>
   (node_text e = Some t \<and> strip t \<noteq> [] \<and> attrib e = [] \<and> children e = [] \<longrightarrow>
      parse_xml_to_dict e = Str (strip t)) \<and>
   (node_text e = None \<or> (node_text e = Some t \<and> strip t = []) \<longrightarrow>
      parse_xml_to_dict e = Dict (fields_of e) \<and>
      (''_text'' \<notin> fst ` set (attrib e) \<and> same_tag_children e ''_text'' = [] \<longrightarrow>
         map_of (fields_of e) ''_text'' = None))"
proof (intro conjI impI)
  assume a: "node_text e = Some t \<and> strip t \<noteq> [] \<and> (attrib e \<noteq> [] \<or> children e \<noteq> [])"
  then have "fields_of e \<noteq> []" by (auto simp: fields_of_empty)
  with a have "parse_xml_to_dict e = Dict (AList.update ''_text'' (Str (strip t)) (fields_of e))"
    by (simp add: parse_unfold)
  then show "\<exists>r. parse_xml_to_dict e = Dict r \<and> map_of r ''_text'' = Some (Str (strip t)) \<and>
           (\<forall>k. k \<noteq> ''_text'' \<longrightarrow> map_of r k = map_of (fields_of e) k)"
    by (simp add: update_conv')
next
  assume "node_text e = Some t \<and> strip t \<noteq> [] \<and> attrib e = [] \<and> children e = []"
  then show "parse_xml_to_dict e = Str (strip t)"
    by (simp add: parse_unfold fields_of_empty)
next
  assume "node_text e = None \<or> (node_text e = Some t \<and> strip t = [])"
  then show "parse_xml_to_dict e = Dict (fields_of e)"
    by (auto simp: parse_unfold)
next
  assume "''_text'' \<notin> fst ` set (attrib e) \<and> same_tag_children e ''_text'' = []"
  then show "map_of (fields_of e) ''_text'' = None"
    by (simp add: fields_of_lookup)
qed

theorem text_handling_witness:
  "parse_xml_to_dict (Element ''characteristic'' [(''name'', ''M'')] (Some '' 6 '') [])
     = Dict [(''name'', Str ''M''), (''_text'', Str ''6'')] \<and>
   parse_xml_to_dict (Element ''description'' [] (Some ''  To the last  '') [])
     = Str ''To the last'' \<and>
   parse_xml_to_dict (Element ''costs'' [] (Some ''   '') []) = Dict [] \<and>
   parse_xml_to_dict (Element ''costs'' [] None []) = Dict []"
  using
    text_handling [of "Element ''characteristic'' [(''name'', ''M'')] (Some '' 6 '') []" "'' 6 ''"]
    text_handling [of "Element ''description'' [] (Some ''  To the last  '') []" "''  To the last  ''"]
    text_handling [of "Element ''costs'' [] (Some ''   '') []" "''   ''"]
    text_handling [of "Element ''costs'' [] None []" "''''"]
  by (simp add: normalizer_defs fields_of_def same_tag_children_def has_text_def
      is_list_def)

text \<open>
  C2, as amended. Let a node normalize to a dict, and let \<open>t\<close> be a tag that is not the
  name of one of the node's attributes (and, for \<open>t = _text\<close>, let the node have no
  non-blank text). Then the field \<open>t\<close> holds a list of length \<open>n\<close> exactly when \<open>n\<close> is at
  least 2 and exactly \<open>n\<close> children have the namespace-stripped tag \<open>t\<close>; the list holds
  their values in document order; a tag on exactly one child gives that child's bare
  value, which is never a list; a tag on no child gives no field.
\<close>

theorem list_coalescing:
  assumes "parse_xml_to_dict e = Dict r"
    and "t \<notin> fst ` set (attrib e)"
    and "t = ''_text'' \<longrightarrow> \<not> has_text e"
  shows "((\<exists>vs. map_of r t = Some (Lst vs) \<and> length vs = n) \<longleftrightarrow>
            (2 \<le> n \<and> length (same_tag_children e t) = n)) \<and>
         (\<forall>vs. map_of r t = Some (Lst vs) \<longrightarrow>
            vs = map parse_xml_to_dict (same_tag_children e t)) \<and>
         (\<forall>c. same_tag_children e t = [c] \<longrightarrow>
            map_of r t = Some (parse_xml_to_dict c) \<and> \<not> is_list (parse_xml_to_dict c)) \<and>
         (same_tag_children e t = [] \<longrightarrow> map_of r t = None)"
proof -
  have "r = fields_of e \<or> (has_text e \<and> (\<exists>v. r = AList.update ''_text'' v (fields_of e)))"
    using assms(1) by (auto simp: parse_unfold has_text_def split: option.splits if_splits)
  then have look: "map_of r t = map_of (fields_of e) t"
    using assms(3) by (auto simp: update_conv')
  show ?thesis
  proof (cases "same_tag_children e t")
    case Nil
    then show ?thesis using look fields_of_lookup [OF assms(2)] by auto
  next
    case (Cons c cs)
    note outer = Cons
    show ?thesis
    proof (cases cs)
      case Nil
      then have "map_of r t = Some (parse_xml_to_dict c)"
        using look outer fields_of_lookup [OF assms(2)] by simp
      moreover have "\<not> is_list (parse_xml_to_dict c)" by (rule parse_not_list)
      ultimately show ?thesis using outer Nil by (auto simp: is_list_def)
    next
      case (Cons c' cs')
      then have "map_of r t = Some (Lst (map parse_xml_to_dict (same_tag_children e t)))"
        using look outer fields_of_lookup [OF assms(2)] by simp
      then show ?thesis using outer Cons by auto
    qed
  qed
qed

text \<open>
  C2 as stated fails when an attribute has the name of a child's tag: the attribute's value
  is already under the key, so the single child \<open>name\<close> makes the field a list of length 2.
\<close>

theorem list_coalescing_counterexample:
  "parse_xml_to_dict
     (Element ''profile'' [(''name'', ''Bolt rifle'')] None [Element ''name'' [] None []])
   = Dict [(''name'', Lst [Str ''Bolt rifle'', Dict []])] \<and>
   length [Str ''Bolt rifle'', Dict []] = 2 \<and>
   count_list (map (clean_tag_name \<circ> tag)
     (children (Element ''profile'' [(''name'', ''Bolt rifle'')] None [Element ''name'' [] None []])))
     ''name'' = 1"
  by (simp add: normalizer_defs fields_of_def same_tag_children_def has_text_def
      is_list_def)

theorem list_coalescing_witness:
  "parse_xml_to_dict
     (Element ''costs'' [] None
        [Element ''cost'' [(''name'', ''pts'')] None [],
         Element ''{http://www.battlescribe.net/schema/catalogueSchema}cost'' [(''name'', ''cp'')] None [],
         Element ''comment'' [] (Some ''x'') []])
   = Dict [(''cost'', Lst [Dict [(''name'', Str ''pts'')], Dict [(''name'', Str ''cp'')]]),
           (''comment'', Str ''x'')] \<and>
   length (same_tag_children
     (Element ''costs'' [] None
        [Element ''cost'' [(''name'', ''pts'')] None [],
         Element ''{http://www.battlescribe.net/schema/catalogueSchema}cost'' [(''name'', ''cp'')] None [],
         Element ''comment'' [] (Some ''x'') []]) ''cost'') = 2"
proof -
  let ?e = "Element ''costs'' [] None
        [Element ''cost'' [(''name'', ''pts'')] None [],
         Element ''{http://www.battlescribe.net/schema/catalogueSchema}cost'' [(''name'', ''cp'')] None [],
         Element ''comment'' [] (Some ''x'') []]"
  let ?r = "[(''cost'', Lst [Dict [(''name'', Str ''pts'')], Dict [(''name'', Str ''cp'')]]),
           (''comment'', Str ''x'')]"
  have run: "parse_xml_to_dict ?e = Dict ?r"
    by (simp add: normalizer_defs fields_of_def same_tag_children_def has_text_def
      is_list_def)
  have attr: "''cost'' \<notin> fst ` set (attrib ?e)" by simp
  have blank: "''cost'' = ''_text'' \<longrightarrow> \<not> has_text ?e" by simp
  from list_coalescing [OF run attr blank, of 2] show ?thesis using run by simp
qed

section \<open>The shared-rule registry when the companion document is unavailable\<close>

text \<open>
  C1. When the companion document is missing or is not JSON, \<^verbatim>\<open>load_json_file\<close> has already
  caught the exception and returned the empty dict, so the \<^verbatim>\<open>try\<close> block of
  \<^verbatim>\<open>load_shared_rules\<close> ends normally: the registry stays the empty set of \<^verbatim>\<open>__init__\<close>
  and is not the built-in name set.
\<close>

theorem load_shared_rules_missing_document:
  "load_shared_rules {} Missing = {} \<and> load_shared_rules {} Unparseable = {} \<and>
   load_shared_rules {} Missing \<noteq> default_shared_rules"
  by (simp add: load_shared_rules_def load_json_file_def load_shared_rules_body_def
      py_contains_def default_shared_rules_def)

text \<open>The \<^verbatim>\<open>except\<close> branch is reached when the body of the \<^verbatim>\<open>try\<close> raises, for instance on
  a companion document whose \<open>sharedRules\<close> is a text containing \<open>rule\<close>.\<close>

lemma load_shared_rules_fallback_reached:
  "load_shared_rules {} (Parsed (Dict [(''sharedRules'', Str ''rules'')])) = default_shared_rules"
  by (simp add: load_shared_rules_def load_json_file_def load_shared_rules_body_def
      py_contains_def py_index_def)

section \<open>Type discrimination of selection entries\<close>

text \<open>
  C5. \<^verbatim>\<open>extract_datasheet\<close> returns a datasheet only for an entry whose \<open>type\<close> is
  \<open>model\<close>, \<^verbatim>\<open>extract_enhancements\<close> returns an enhancement only for an entry whose
  \<open>type\<close> is \<open>upgrade\<close>, and on a record each returns nothing when the type is not its own;
  so a record of any other type gives neither.
\<close>

theorem type_discrimination:
  "(extract_datasheet shared_rules uid selection_entry = Inr (Some d) \<longrightarrow>
      py_get selection_entry ''type'' = Inr (Some (Str ''model''))) \<and>
   (extract_enhancements uid selection_entry = Inr (Some en) \<longrightarrow>
      py_get selection_entry ''type'' = Inr (Some (Str ''upgrade''))) \<and>
   (map_of kvs ''type'' \<noteq> Some (Str ''model'') \<longrightarrow>
      extract_datasheet shared_rules uid (Dict kvs) = Inr None) \<and>
   (map_of kvs ''type'' \<noteq> Some (Str ''upgrade'') \<longrightarrow>
      extract_enhancements uid (Dict kvs) = Inr None)"
  by (auto simp: extract_datasheet_def extract_enhancements_def py_bind_eq_Inr py_get_def
      split: if_splits ssv.splits)

theorem type_discrimination_witness:
  "extract_datasheet {} ''u1'' (Dict [(''type'', Str ''model''), (''name'', Str ''Azrael'')])
     = Inr (Some
         \<lparr>ds_id = ''u1'', ds_name = Str ''Azrael'', ds_cardType = ''DataCard'',
          ds_factions = [''Dark Angels''], ds_faction_id = ''CHDA'', ds_source = ''40k-10e'',
          ds_abilities = initial_abilities, ds_stats = [], ds_rangedWeapons = [],
          ds_meleeWeapons = [], ds_keywords = [], ds_points = [],
          ds_composition = [(''1 '', Str ''Azrael'')], ds_fluff = '''', ds_leader = '''',
          ds_loadout = '''', ds_transport = '''', ds_wargear = []\<rparr>) \<and>
   extract_enhancements ''u1'' (Dict [(''type'', Str ''model''), (''name'', Str ''Azrael'')])
     = Inr None \<and>
   extract_enhancements ''u2'' (Dict [(''type'', Str ''upgrade'')])
     = Inr (Some
         \<lparr>en_name = Str '''', en_id = ''u2'', en_cost = ''0'', en_keywords = [''Dark Angels''],
          en_excludes = [], en_description = Str '''', en_faction_id = ''CHDA'',
          en_source = ''40k-10e'', en_cardType = ''enhancement'',
          en_detachment = ''Wrath of the Rock''\<rparr>) \<and>
   py_get (Dict [(''type'', Str ''upgrade'')]) ''type'' = Inr (Some (Str ''upgrade'')) \<and>
   extract_datasheet {} ''u2'' (Dict [(''type'', Str ''upgrade'')]) = Inr None \<and>
   extract_datasheet {} ''u3'' (Dict [(''type'', Str ''unit'')]) = Inr None \<and>
   extract_enhancements ''u3'' (Dict [(''type'', Str ''unit'')]) = Inr None"
proof -
  have model: "extract_datasheet {} ''u1'' (Dict [(''type'', Str ''model''), (''name'', Str ''Azrael'')])
     = Inr (Some
         \<lparr>ds_id = ''u1'', ds_name = Str ''Azrael'', ds_cardType = ''DataCard'',
          ds_factions = [''Dark Angels''], ds_faction_id = ''CHDA'', ds_source = ''40k-10e'',
          ds_abilities = initial_abilities, ds_stats = [], ds_rangedWeapons = [],
          ds_meleeWeapons = [], ds_keywords = [], ds_points = [],
          ds_composition = [(''1 '', Str ''Azrael'')], ds_fluff = '''', ds_leader = '''',
          ds_loadout = '''', ds_transport = '''', ds_wargear = []\<rparr>)"
    by (simp add: extract_datasheet_def extract_abilities_def extract_stats_def
        extract_weapons_def extract_keywords_def extract_points_def py_defs)
  have upgrade: "extract_enhancements ''u2'' (Dict [(''type'', Str ''upgrade'')])
     = Inr (Some
         \<lparr>en_name = Str '''', en_id = ''u2'', en_cost = ''0'', en_keywords = [''Dark Angels''],
          en_excludes = [], en_description = Str '''', en_faction_id = ''CHDA'',
          en_source = ''40k-10e'', en_cardType = ''enhancement'',
          en_detachment = ''Wrath of the Rock''\<rparr>)"
    by (simp add: extract_enhancements_def py_defs)
  have t1: "map_of [(''type'', Str ''model''), (''name'', Str ''Azrael'')] ''type''
              \<noteq> Some (Str ''upgrade'')"
    and t2: "map_of [(''type'', Str ''upgrade'')] ''type'' \<noteq> Some (Str ''model'')"
    and t3: "map_of [(''type'', Str ''unit'')] ''type'' \<noteq> Some (Str ''model'')"
    and t4: "map_of [(''type'', Str ''unit'')] ''type'' \<noteq> Some (Str ''upgrade'')"
    by simp_all
  show ?thesis
    using model upgrade t1 t2 t3 t4
      type_discrimination [of "{}" "''u1''"
        "Dict [(''type'', Str ''model''), (''name'', Str ''Azrael'')]" _ _
        "[(''type'', Str ''model''), (''name'', Str ''Azrael'')]"]
      type_discrimination [of "{}" "''u2''" "Dict [(''type'', Str ''upgrade'')]" _ _
        "[(''type'', Str ''upgrade'')]"]
      type_discrimination [of "{}" "''u3''" "Dict [(''type'', Str ''unit'')]" _ _
        "[(''type'', Str ''unit'')]"]
    by (simp add: py_get_def)
qed

section \<open>Abilities: classification against the registry\<close>

lemma classify_simulation:
  assumes "classified sr a a0" and "classify_ability sr n d b a = Inr a'"
  shows "\<exists>a0'. classify_ability {} n d b a0 = Inr a0' \<and> classified sr a' a0'"
  using assms by (auto simp: classify_ability_def classified_def split: ssv.splits if_splits)

lemma info_link_step_simulation:
  assumes "classified sr a a0" and "info_link_step sr il a = Inr a'"
  shows "\<exists>a0'. info_link_step {} il a0 = Inr a0' \<and> classified sr a' a0'"
  using assms by (auto simp: info_link_step_def py_bind_eq_Inr dest: classify_simulation)

lemma ability_char_step_simulation:
  assumes "classified sr a a0" and "ability_char_step sr p c a = Inr a'"
  shows "\<exists>a0'. ability_char_step {} p c a0 = Inr a0' \<and> classified sr a' a0'"
  using assms
  by (auto simp: ability_char_step_def py_bind_eq_Inr dest: classify_simulation split: if_splits)

lemma ability_profile_step_simulation:
  assumes "classified sr a a0" and "ability_profile_step sr p a = Inr a'"
  shows "\<exists>a0'. ability_profile_step {} p a0 = Inr a0' \<and> classified sr a' a0'"
proof -
  from assms(2) obtain tid where tid: "py_get p ''typeId'' = Inr tid"
    by (auto simp: ability_profile_step_def py_bind_eq_Inr)
  show ?thesis
  proof (cases "tid = Some (Str ''9cc3-6d83-4dd3-9b64'')")
    case True
    then have "over_section p ''characteristics'' ''characteristic''
                 (ability_char_step sr p) a = Inr a'"
      using assms(2) tid by (simp add: ability_profile_step_def)
    from over_section_simulation
      [where R = "classified sr" and g = "ability_char_step {} p", OF this assms(1)]
      ability_char_step_simulation
    obtain a0' where "over_section p ''characteristics'' ''characteristic''
                 (ability_char_step {} p) a0 = Inr a0'" "classified sr a' a0'"
      by blast
    then show ?thesis using tid True by (simp add: ability_profile_step_def)
  next
    case False
    then show ?thesis using assms tid by (simp add: ability_profile_step_def)
  qed
qed

lemma extract_abilities_simulation:
  assumes "extract_abilities sr e = Inr a"
  shows "\<exists>a0. extract_abilities {} e = Inr a0 \<and> classified sr a a0"
proof -
  from assms obtain a1 where
    a1: "over_section e ''infoLinks'' ''infoLink'' (info_link_step sr) initial_abilities = Inr a1"
    and a: "over_section e ''profiles'' ''profile'' (ability_profile_step sr) a1 = Inr a"
    by (auto simp: extract_abilities_def py_bind_eq_Inr)
  have start: "classified sr initial_abilities initial_abilities"
    by (simp add: classified_def initial_abilities_def)
  from over_section_simulation
    [where R = "classified sr" and g = "info_link_step {}", OF a1 start] info_link_step_simulation
  obtain b1 where b1: "over_section e ''infoLinks'' ''infoLink'' (info_link_step {})
      initial_abilities = Inr b1" "classified sr a1 b1"
    by blast
  from over_section_simulation
    [where R = "classified sr" and g = "ability_profile_step {}", OF a b1(2)]
    ability_profile_step_simulation
  obtain b where "over_section e ''profiles'' ''profile'' (ability_profile_step {}) b1 = Inr b"
    "classified sr a b"
    by blast
  then show ?thesis using b1(1) by (auto simp: extract_abilities_def)
qed

section \<open>Abilities: names synthesized by modifiers\<close>

lemma modifier_step_Dict:
  "modifier_step (Dict m) (Str nm) =
     (if is_name_append m then
        (if text_valued m then Inr (Str (nm @ append_value m)) else Inl TypeError)
      else Inr (Str nm))"
  by (auto simp: modifier_step_def py_get_def py_get_default_def py_iadd_def is_name_append_def
      text_valued_def append_value_def split: option.splits ssv.splits)

lemma modifier_loop:
  assumes "\<forall>m \<in> set ms. is_name_append m \<longrightarrow> text_valued m"
  shows "for_each modifier_step (map Dict ms) (Str nm) =
           Inr (Str (nm @ concat (map append_value (filter is_name_append ms))))"
  using assms by (induction ms arbitrary: nm) (simp_all add: modifier_step_Dict)



section \<open>Points\<close>

lemma point_step_Dict:
  "point_step (Dict c) points = Inr (if is_pts c then points @ [point_row c] else points)"
  by (simp add: point_step_def py_get_def py_get_default_def is_pts_def point_row_def)

lemma point_loop:
  "for_each point_step (map Dict cs) points = Inr (points @ map point_row (filter is_pts cs))"
  by (induction cs arbitrary: points) (simp_all add: point_step_Dict)

text \<open>
  C8. When the \<open>costs\<close>/\<open>cost\<close> section of an entry holds cost records,
  \<^verbatim>\<open>extract_points\<close> returns, in order, one row for each cost whose \<open>name\<close> is \<open>pts\<close>:
  name \<open>model\<close>, model count \<open>1\<close> and the cost's \<open>value\<close> (\<open>0\<close> when the cost has
  none). The normalized Intercessor Squad entry, of type \<open>model\<close> with the single cost
  \<open>pts\<close> = 100, gives a datasheet with that one row for 100, no stats and no ranged
  weapons.
\<close>

theorem points_rows:
  "(map_of se ''costs'' = Some (Dict costs) \<and> map_of costs ''cost'' = Some cv \<and>
    as_list cv = map Dict cs \<longrightarrow>
      extract_points (Dict se) = Inr (map point_row (filter is_pts cs))) \<and>
   (\<exists>d. extract_datasheet shared_rules uid (parse_xml_to_dict intercessor_squad) = Inr (Some d) \<and>
        ds_points d = [\<lparr>pt_name = ''model'', pt_model = ''1'', pt_cost = Str ''100''\<rparr>] \<and>
        ds_stats d = [] \<and> ds_rangedWeapons d = [])"
proof (intro conjI impI)
  assume "map_of se ''costs'' = Some (Dict costs) \<and> map_of costs ''cost'' = Some cv \<and>
    as_list cv = map Dict cs"
  then show "extract_points (Dict se) = Inr (map point_row (filter is_pts cs))"
    by (simp add: extract_points_def over_section_Dict lookup_key_Dict point_loop)
next
  have "parse_xml_to_dict intercessor_squad =
      Dict [(''type'', Str ''model''), (''name'', Str ''Intercessor Squad''),
            (''costs'', Dict [(''cost'', Dict [(''name'', Str ''pts''), (''value'', Str ''100'')])])]"
    by (simp add: intercessor_squad_def normalizer_defs)
  then show "\<exists>d. extract_datasheet shared_rules uid (parse_xml_to_dict intercessor_squad) = Inr (Some d) \<and>
        ds_points d = [\<lparr>pt_name = ''model'', pt_model = ''1'', pt_cost = Str ''100''\<rparr>] \<and>
        ds_stats d = [] \<and> ds_rangedWeapons d = []"
    by (simp add: extract_datasheet_def extract_abilities_def extract_stats_def
        extract_weapons_def extract_keywords_def extract_points_def over_section_Dict
        lookup_key_Dict py_get_def py_get_default_def as_list_def point_step_Dict is_pts_def
        point_row_def)
qed

theorem points_rows_witness:
  "extract_points
     (Dict [(''name'', Str ''Deathwing Knights''),
            (''costs'', Dict [(''cost'',
               Lst [Dict [(''name'', Str ''pts''), (''value'', Str ''250'')],
                    Dict [(''name'', Str ''Crusade: Experience''), (''value'', Str ''0'')],
                    Dict [(''name'', Str ''pts'')]])])])
   = Inr [\<lparr>pt_name = ''model'', pt_model = ''1'', pt_cost = Str ''250''\<rparr>,
          \<lparr>pt_name = ''model'', pt_model = ''1'', pt_cost = Str ''0''\<rparr>]"
  using points_rows [of
      "[(''name'', Str ''Deathwing Knights''),
        (''costs'', Dict [(''cost'',
           Lst [Dict [(''name'', Str ''pts''), (''value'', Str ''250'')],
                Dict [(''name'', Str ''Crusade: Experience''), (''value'', Str ''0'')],
                Dict [(''name'', Str ''pts'')]])])]"
      "[(''cost'',
           Lst [Dict [(''name'', Str ''pts''), (''value'', Str ''250'')],
                Dict [(''name'', Str ''Crusade: Experience''), (''value'', Str ''0'')],
                Dict [(''name'', Str ''pts'')]])]"
      "Lst [Dict [(''name'', Str ''pts''), (''value'', Str ''250'')],
                Dict [(''name'', Str ''Crusade: Experience''), (''value'', Str ''0'')],
                Dict [(''name'', Str ''pts'')]]"
      "[[(''name'', Str ''pts''), (''value'', Str ''250'')],
        [(''name'', Str ''Crusade: Experience''), (''value'', Str ''0'')],
        [(''name'', Str ''pts'')]]"]
  by (simp add: as_list_def is_pts_def point_row_def)

section \<open>Weapons\<close>

lemma first_occurrences_snoc:
  "first_occurrences (xs @ [x]) =
     (if x \<in> set xs then first_occurrences xs else first_occurrences xs @ [x])"
  by (simp add: first_occurrences_def)

lemma set_first_occurrences [simp]: "set (first_occurrences xs) = set xs"
  by (simp add: first_occurrences_def)

lemma distinct_first_occurrences [simp]: "distinct (first_occurrences xs)"
  by (simp add: first_occurrences_def)

lemma keys_grouped: "set (map fst (grouped ps)) = wp_name ` set ps"
  by (simp add: grouped_def comp_def)

lemma grouped_snoc:
  "grouped (ps @ [wp]) =
     append_profile (wp_name wp) wp
       (if wp_name wp \<notin> set (map fst (grouped ps))
        then grouped ps @ [(wp_name wp, \<lparr>wg_active = True, wg_profiles = []\<rparr>)]
        else grouped ps)"
proof (cases "wp_name wp \<in> wp_name ` set ps")
  case True
  then show ?thesis
    by (simp add: keys_grouped [simplified] grouped_def first_occurrences_snoc append_profile_def
        group_named_def comp_def)
next
  case False
  then have fresh: "\<forall>p \<in> set ps. wp_name p \<noteq> wp_name wp"
    by (metis imageI)
  then have none: "filter (\<lambda>p. wp_name p = wp_name wp) ps = []"
    by (simp add: filter_empty_conv)
  have "map (\<lambda>n. (n, group_named (ps @ [wp]) n)) (first_occurrences (map wp_name ps)) =
        map (\<lambda>kg. if fst kg = wp_name wp
                  then (fst kg, (snd kg)\<lparr>wg_profiles := wg_profiles (snd kg) @ [wp]\<rparr>)
                  else (fst kg, snd kg))
          (map (\<lambda>n. (n, group_named ps n)) (first_occurrences (map wp_name ps)))"
    using fresh by (auto simp: group_named_def)
  then show ?thesis
    using False none
    by (simp add: keys_grouped [simplified] grouped_def first_occurrences_snoc append_profile_def
        group_named_def case_prod_unfold)
qed

lemma filter_eq_distinct:
  "distinct xs \<Longrightarrow> n \<in> set xs \<Longrightarrow> filter (\<lambda>m. m = n) xs = [n]"
proof (induction xs)
  case Nil
  then show ?case by simp
next
  case (Cons x xs)
  show ?case
  proof (cases "x = n")
    case True
    then have "n \<notin> set xs" using Cons.prems(1) by simp
    then have "filter (\<lambda>m. m = n) xs = []" by (auto simp: filter_empty_conv)
    then show ?thesis using True by simp
  next
    case False
    then show ?thesis using Cons by simp
  qed
qed

lemma one_group_per_name:
  assumes "n \<in> wp_name ` set ps"
  shows "filter (\<lambda>g. \<exists>p \<in> set (wg_profiles g). wp_name p = n) (map snd (grouped ps))
           = [group_named ps n]"
proof -
  let ?names = "first_occurrences (map wp_name ps)"
  have holds: "\<And>m. m \<in> set ?names \<Longrightarrow>
      (\<exists>p \<in> set (wg_profiles (group_named ps m)). wp_name p = n) \<longleftrightarrow> m = n"
    using assms by (auto simp: group_named_def)
  have same: "filter (\<lambda>m. \<exists>p \<in> set (wg_profiles (group_named ps m)). wp_name p = n) ?names
        = filter (\<lambda>m. m = n) ?names"
    by (rule filter_cong) (simp_all add: holds del: set_first_occurrences)
  have "filter (\<lambda>g. \<exists>p \<in> set (wg_profiles g). wp_name p = n) (map snd (grouped ps))
        = map (group_named ps) (filter (\<lambda>m. \<exists>p \<in> set (wg_profiles (group_named ps m)). wp_name p = n) ?names)"
    by (simp add: grouped_def filter_map comp_def)
  moreover have "filter (\<lambda>m. m = n) ?names = [n]"
    using assms by (intro filter_eq_distinct) simp_all
  ultimately show ?thesis using same by simp
qed

lemma keywords_of_text_name:
  "keywords_of_text v wp = Inr wp' \<Longrightarrow> wp_name wp' = wp_name wp"
  by (cases v) (auto simp: keywords_of_text_def split: if_splits)

lemma weapon_char_step_name:
  assumes "weapon_char_step c wp = Inr wp'"
  shows "wp_name wp' = wp_name wp"
proof -
  from assms obtain n v where
    "(if n = Some (Str ''Range'') then Inr (wp\<lparr>wp_range := Some v\<rparr>)
      else if n = Some (Str ''A'') then Inr (wp\<lparr>wp_attacks := Some v\<rparr>)
      else if n = Some (Str ''BS'') then Inr (wp\<lparr>wp_skill := Some v\<rparr>)
      else if n = Some (Str ''S'') then Inr (wp\<lparr>wp_strength := Some v\<rparr>)
      else if n = Some (Str ''AP'') then Inr (wp\<lparr>wp_ap := Some v\<rparr>)
      else if n = Some (Str ''D'') then Inr (wp\<lparr>wp_damage := Some v\<rparr>)
      else if n = Some (Str ''Keywords'') then keywords_of_text v wp
      else Inr wp) = Inr wp'"
    unfolding weapon_char_step_def py_bind_eq_Inr by blast
  then show ?thesis
    by (auto split: if_splits dest: keywords_of_text_name)
qed

lemma weapon_profile_step_abstraction:
  "weapon_profile_step wt p (grouped ps) =
     py_bind (weapon_profile_log wt p ps) (\<lambda>ps'. Inr (grouped ps'))"
proof (cases "py_get p ''typeId''")
  case (Inl e)
  then show ?thesis by (simp add: weapon_profile_step_def weapon_profile_log_def)
next
  case (Inr tid)
  note tid = Inr
  show ?thesis
  proof (cases "matches_weapon_type wt tid")
    case False
    then show ?thesis using tid by (simp add: weapon_profile_step_def weapon_profile_log_def)
  next
    case True
    note matches = True
    show ?thesis
    proof (cases "py_get_default p ''name'' (Str '''')")
      case (Inl e)
      then show ?thesis
        using tid matches by (simp add: weapon_profile_step_def weapon_profile_log_def)
    next
      case (Inr nm)
      note nm = Inr
      show ?thesis
      proof (cases nm)
        case (Str n)
        let ?build = "over_section p ''characteristics'' ''characteristic'' weapon_char_step
          \<lparr>wp_active = True, wp_name = n, wp_range = None, wp_attacks = None, wp_skill = None,
           wp_strength = None, wp_ap = None, wp_damage = None, wp_keywords = None\<rparr>"
        show ?thesis
        proof (cases ?build)
          case (Inl e)
          then show ?thesis
            using tid matches nm Str
            by (simp add: weapon_profile_step_def weapon_profile_log_def Let_def)
        next
          case (Inr wp)
          have "wp_name wp = n"
            using over_section_invariant [OF Inr, of "\<lambda>w. wp_name w = n"] weapon_char_step_name
            by simp
          then show ?thesis
            using tid matches nm Str Inr grouped_snoc [of ps wp]
            by (simp add: weapon_profile_step_def weapon_profile_log_def Let_def
                append_profile_def)
        qed
      next
        case (Dict d)
        then show ?thesis
          using tid matches nm by (simp add: weapon_profile_step_def weapon_profile_log_def)
      next
        case (Lst xs)
        then show ?thesis
          using tid matches nm by (simp add: weapon_profile_step_def weapon_profile_log_def)
      qed
    qed
  qed
qed

lemma extract_weapons_grouped:
  "extract_weapons se wt =
     py_bind (collected_profiles se wt) (\<lambda>ps. Inr (map snd (grouped ps)))"
proof -
  have entry: "\<And>entry ps. weapon_entry_step wt entry (grouped ps) =
      py_bind (over_section entry ''profiles'' ''profile'' (weapon_profile_log wt) ps)
        (\<lambda>ps'. Inr (grouped ps'))"
    unfolding weapon_entry_step_def
    by (rule over_section_abstraction) (rule weapon_profile_step_abstraction)
  have "over_section se ''selectionEntries'' ''selectionEntry'' (weapon_entry_step wt) (grouped [])
        = py_bind (collected_profiles se wt) (\<lambda>ps. Inr (grouped ps))"
    unfolding collected_profiles_def
    by (rule over_section_abstraction) (rule entry)
  moreover have "grouped [] = []"
    by (simp add: grouped_def first_occurrences_def)
  ultimately show ?thesis
    by (cases "collected_profiles se wt") (simp_all add: extract_weapons_def)
qed

section \<open>Missing optional fields\<close>

lemma records_of_all:
  assumes "list_all (\<lambda>x. case x of Dict i \<Rightarrow> ok i | _ \<Rightarrow> False) xs"
  shows "xs = map Dict (records_of xs) \<and> list_all ok (records_of xs)"
  using assms
proof (induction xs)
  case Nil
  then show ?case by (simp add: records_of_def)
next
  case (Cons x xs)
  then show ?case by (cases x) (simp_all add: records_of_def)
qed

lemma over_section_wf:
  assumes "section_of d outer inner ok"
  shows "over_section (Dict d) outer inner step s =
           for_each step (map Dict (section_items d outer inner)) s"
    and "list_all ok (section_items d outer inner)"
proof -
  show "over_section (Dict d) outer inner step s =
           for_each step (map Dict (section_items d outer inner)) s"
  proof (cases "map_of d outer")
    case None
    then show ?thesis by (simp add: over_section_Dict section_items_def)
  next
    case (Some sec)
    then obtain sd where sd: "sec = Dict sd"
      using assms by (cases sec) (simp_all add: section_of_def)
    show ?thesis
    proof (cases "map_of sd inner")
      case None
      then show ?thesis using Some sd by (simp add: over_section_Dict lookup_key_Dict section_items_def)
    next
      case (Some items)
      then have "list_all (\<lambda>x. case x of Dict i \<Rightarrow> ok i | _ \<Rightarrow> False) (as_list items)"
        using assms \<open>map_of d outer = Some sec\<close> sd by (simp add: section_of_def)
      then have "as_list items = map Dict (records_of (as_list items))"
        using records_of_all by blast
      then show ?thesis
        using Some sd \<open>map_of d outer = Some sec\<close>
        by (simp add: over_section_Dict lookup_key_Dict section_items_def)
    qed
  qed
  show "list_all ok (section_items d outer inner)"
    using assms records_of_all [of ok]
    by (auto simp: section_of_def section_items_def split: option.splits ssv.splits)
qed

lemma for_each_succeeds:
  assumes "\<And>x s. x \<in> set xs \<Longrightarrow> \<exists>s'. step x s = Inr s'"
  shows "\<exists>s'. for_each step xs s = Inr s'"
  using assms
proof (induction xs arbitrary: s)
  case Nil
  then show ?case by simp
next
  case (Cons x xs)
  from Cons.prems [of x s] obtain t where t: "step x s = Inr t" by auto
  have "\<exists>s'. for_each step xs t = Inr s'"
    by (rule Cons.IH) (simp add: Cons.prems)
  then show ?case using t by simp
qed

lemma section_succeeds:
  assumes "section_of d outer inner ok"
    and "\<And>i s. ok i \<Longrightarrow> \<exists>s'. step (Dict i) s = Inr s'"
  shows "\<exists>s'. over_section (Dict d) outer inner step s = Inr s'"
proof -
  have "list_all ok (section_items d outer inner)"
    using over_section_wf(2) [OF assms(1)] .
  then have "\<And>x s. x \<in> set (map Dict (section_items d outer inner)) \<Longrightarrow> \<exists>s'. step x s = Inr s'"
    using assms(2) by (auto simp: list_all_iff)
  then show ?thesis
    using for_each_succeeds [of "map Dict (section_items d outer inner)" step s]
      over_section_wf(1) [OF assms(1), of step s] by simp
qed

lemma section_absent:
  "map_of d outer = None \<Longrightarrow> over_section (Dict d) outer inner step s = Inr s"
  by (simp add: over_section_Dict)

lemma text_if_present_default:
  assumes "text_if_present d k"
  shows "\<exists>s. py_get_default (Dict d) k (Str dflt) = Inr (Str s)"
  using assms
  by (auto simp: text_if_present_def py_get_default_def split: option.splits ssv.splits)

lemma classify_text_succeeds: "\<exists>a'. classify_ability sr (Str s) descr b a = Inr a'"
  by (simp add: classify_ability_def)

lemma info_link_rule_name_succeeds:
  assumes "wf_info_link il"
  shows "\<exists>s. info_link_rule_name (Dict il) = Inr (Str s)"
proof -
  from assms obtain base where base: "py_get_default (Dict il) ''name'' (Str '''') = Inr (Str base)"
    using text_if_present_default [of il "''name''" "''''"] by (auto simp: wf_info_link_def)
  have sec: "section_of il ''modifiers'' ''modifier'' text_valued"
    using assms by (simp add: wf_info_link_def)
  show ?thesis
  proof (cases "map_of il ''modifiers''")
    case None
    then show ?thesis using base by (simp add: info_link_rule_name_def py_contains_Dict)
  next
    case (Some mv)
    then obtain mods where mods: "mv = Dict mods"
      using sec by (cases mv) (simp_all add: section_of_def)
    show ?thesis
    proof (cases "map_of mods ''modifier''")
      case None
      then show ?thesis
        using base Some mods
        by (simp add: info_link_rule_name_def py_contains_Dict py_index_def lookup_key_Dict)
    next
      case (Some items)
      then have "list_all (\<lambda>x. case x of Dict i \<Rightarrow> text_valued i | _ \<Rightarrow> False) (as_list items)"
        using sec \<open>map_of il ''modifiers'' = Some mv\<close> mods by (simp add: section_of_def)
      then have items: "as_list items = map Dict (records_of (as_list items))"
        and valued: "list_all text_valued (records_of (as_list items))"
        using records_of_all by blast+
      have "\<forall>m \<in> set (records_of (as_list items)). is_name_append m \<longrightarrow> text_valued m"
        using valued by (simp add: list_all_iff)
      from modifier_loop [OF this, of base] items
      have "\<exists>s. for_each modifier_step (as_list items) (Str base) = Inr (Str s)"
        by metis
      then show ?thesis
        using base Some mods \<open>map_of il ''modifiers'' = Some mv\<close>
        by (simp add: info_link_rule_name_def py_contains_Dict py_index_def lookup_key_Dict)
    qed
  qed
qed

lemma info_link_step_succeeds:
  assumes "wf_info_link il"
  shows "\<exists>a'. info_link_step sr (Dict il) a = Inr a'"
proof -
  from info_link_rule_name_succeeds [OF assms] obtain s where
    "info_link_rule_name (Dict il) = Inr (Str s)" by blast
  then show ?thesis
    using classify_text_succeeds [of sr s "Str ''''" False a] by (simp add: info_link_step_def)
qed

lemma ability_char_step_succeeds:
  assumes "text_if_present p ''name''"
  shows "\<exists>a'. ability_char_step sr (Dict p) (Dict c) a = Inr a'"
proof -
  from text_if_present_default [OF assms, of "''''"] obtain s where
    "py_get_default (Dict p) ''name'' (Str '''') = Inr (Str s)" by blast
  then show ?thesis
    using classify_text_succeeds [of sr s _ True a]
    by (simp add: ability_char_step_def py_get_def py_get_default_def)
qed

lemma ability_profile_step_succeeds:
  assumes "wf_profile p"
  shows "\<exists>a'. ability_profile_step sr (Dict p) a = Inr a'"
proof (cases "map_of p ''typeId'' = Some (Str ''9cc3-6d83-4dd3-9b64'')")
  case True
  have "\<exists>a'. over_section (Dict p) ''characteristics'' ''characteristic''
          (ability_char_step sr (Dict p)) a = Inr a'"
    using assms
    by (intro section_succeeds [where ok = wf_characteristic] ability_char_step_succeeds)
      (simp_all add: wf_profile_def)
  then show ?thesis using True by (simp add: ability_profile_step_def py_get_def)
next
  case False
  then show ?thesis by (simp add: ability_profile_step_def py_get_def)
qed

lemma extract_abilities_succeeds:
  assumes "wf_entry se"
  shows "\<exists>a. extract_abilities sr (Dict se) = Inr a"
proof -
  have "\<exists>a1. over_section (Dict se) ''infoLinks'' ''infoLink'' (info_link_step sr)
          initial_abilities = Inr a1"
    using assms
    by (intro section_succeeds [where ok = wf_info_link] info_link_step_succeeds)
      (simp_all add: wf_entry_def)
  then obtain a1 where a1: "over_section (Dict se) ''infoLinks'' ''infoLink''
      (info_link_step sr) initial_abilities = Inr a1" by blast
  have "\<exists>a. over_section (Dict se) ''profiles'' ''profile'' (ability_profile_step sr) a1 = Inr a"
    using assms
    by (intro section_succeeds [where ok = wf_profile] ability_profile_step_succeeds)
      (simp_all add: wf_entry_def)
  then show ?thesis using a1 by (simp add: extract_abilities_def)
qed

lemma keywords_of_text_succeeds: "\<exists>wp'. keywords_of_text (Str s) wp = Inr wp'"
  by (simp add: keywords_of_text_def)

lemma weapon_char_step_succeeds:
  assumes "wf_characteristic c"
  shows "\<exists>wp'. weapon_char_step (Dict c) wp = Inr wp'"
proof -
  from text_if_present_default [of c "''_text''" "''''"] assms obtain s where
    "py_get_default (Dict c) ''_text'' (Str '''') = Inr (Str s)"
    by (auto simp: wf_characteristic_def)
  then show ?thesis
    using keywords_of_text_succeeds [of s wp] by (simp add: weapon_char_step_def py_get_def)
qed

lemma weapon_profile_step_succeeds:
  assumes "wf_profile p"
  shows "\<exists>g'. weapon_profile_step wt (Dict p) g = Inr g'"
proof (cases "matches_weapon_type wt (map_of p ''typeId'')")
  case True
  from text_if_present_default [of p "''name''" "''''"] assms obtain n where
    n: "py_get_default (Dict p) ''name'' (Str '''') = Inr (Str n)"
    by (auto simp: wf_profile_def)
  have "\<And>wp0. \<exists>wp. over_section (Dict p) ''characteristics'' ''characteristic''
          weapon_char_step wp0 = Inr wp"
    using assms
    by (intro section_succeeds [where ok = wf_characteristic] weapon_char_step_succeeds)
      (simp_all add: wf_profile_def)
  then obtain wp where "over_section (Dict p) ''characteristics'' ''characteristic''
      weapon_char_step
      \<lparr>wp_active = True, wp_name = n, wp_range = None, wp_attacks = None, wp_skill = None,
       wp_strength = None, wp_ap = None, wp_damage = None, wp_keywords = None\<rparr> = Inr wp"
    by blast
  then show ?thesis
    using True n by (simp add: weapon_profile_step_def py_get_def Let_def)
next
  case False
  then show ?thesis by (simp add: weapon_profile_step_def py_get_def)
qed

lemma extract_weapons_succeeds:
  assumes "wf_entry se"
  shows "\<exists>ws. extract_weapons (Dict se) wt = Inr ws"
proof -
  have entry: "\<And>e g. wf_nested_entry e \<Longrightarrow> \<exists>g'. weapon_entry_step wt (Dict e) g = Inr g'"
    unfolding weapon_entry_step_def
    by (intro section_succeeds [where ok = wf_profile] weapon_profile_step_succeeds)
      (simp_all add: wf_nested_entry_def)
  have "\<exists>g. over_section (Dict se) ''selectionEntries'' ''selectionEntry''
          (weapon_entry_step wt) [] = Inr g"
    using assms
    by (intro section_succeeds [where ok = wf_nested_entry] entry) (simp_all add: wf_entry_def)
  then show ?thesis by (auto simp: extract_weapons_def)
qed

lemma keyword_step_succeeds: "\<exists>ks'. keyword_step (Dict link) ks = Inr ks'"
  by (auto simp: keyword_step_def py_contains_Dict py_index_def)

lemma extract_keywords_succeeds:
  assumes "wf_entry se"
  shows "\<exists>ks. extract_keywords (Dict se) = Inr ks"
  unfolding extract_keywords_def
  using assms
  by (intro section_succeeds [where ok = "\<lambda>link. True"] keyword_step_succeeds)
    (simp_all add: wf_entry_def)

lemma extract_points_succeeds:
  assumes "wf_entry se"
  shows "\<exists>ps. extract_points (Dict se) = Inr ps"
  unfolding extract_points_def
  using assms
  by (intro section_succeeds [where ok = "\<lambda>cost. True"]) (simp_all add: wf_entry_def point_step_Dict)

lemma later_value_None [simp]: "later_value None new = new"
  by (cases new) (simp_all add: later_value_def)

lemma characteristic_text_Cons:
  "characteristic_text (c # cs) k =
     (if map_of c ''name'' = Some (Str k)
      then later_value (Some (text_of c)) (characteristic_text cs k)
      else characteristic_text cs k)"
  by (auto simp: characteristic_text_def later_value_def split: list.splits)

lemma stat_char_step_succeeds: "\<exists>stat'. stat_char_step (Dict c) stat = Inr stat'"
  by (simp add: stat_char_step_def py_get_def py_get_default_def)

lemma stat_loop_field:
  assumes "\<And>c s s'. stat_char_step (Dict c) s = Inr s' \<Longrightarrow>
             g s' = (if map_of c ''name'' = Some (Str k) then Some (text_of c) else g s)"
    and "for_each stat_char_step (map Dict cs) s = Inr s'"
  shows "g s' = later_value (g s) (characteristic_text cs k)"
  using assms(2)
proof (induction cs arbitrary: s)
  case Nil
  then show ?case by (simp add: characteristic_text_def later_value_def)
next
  case (Cons c cs)
  from Cons.prems obtain t where t: "stat_char_step (Dict c) s = Inr t"
    and rest: "for_each stat_char_step (map Dict cs) t = Inr s'"
    by (auto simp: py_bind_eq_Inr)
  have "g s' = later_value (g t) (characteristic_text cs k)" by (rule Cons.IH [OF rest])
  moreover have "g t = (if map_of c ''name'' = Some (Str k) then Some (text_of c) else g s)"
    by (rule assms(1) [OF t])
  ultimately show ?case
    by (simp add: characteristic_text_Cons later_value_def split: option.splits)
qed

lemma stat_loop_kept:
  assumes "\<And>c s s'. stat_char_step (Dict c) s = Inr s' \<Longrightarrow> g s' = g s"
    and "for_each stat_char_step (map Dict cs) s = Inr s'"
  shows "g s' = g s"
proof (rule for_each_invariant [OF assms(2), where P = "\<lambda>t. g t = g s"])
  show "g s = g s" ..
next
  fix x t t'
  assume x: "x \<in> set (map Dict cs)" and kept: "g t = g s" and step: "stat_char_step x t = Inr t'"
  from x obtain c where "x = Dict c" by auto
  then show "g t' = g s" using assms(1) [of c t t'] step kept by simp
qed

lemma stat_char_step_cases:
  assumes "stat_char_step (Dict c) s = Inr s'"
  shows "st_m s' = (if map_of c ''name'' = Some (Str ''M'') then Some (text_of c) else st_m s)"
    and "st_t s' = (if map_of c ''name'' = Some (Str ''T'') then Some (text_of c) else st_t s)"
    and "st_sv s' = (if map_of c ''name'' = Some (Str ''SV'') then Some (text_of c) else st_sv s)"
    and "st_w s' = (if map_of c ''name'' = Some (Str ''W'') then Some (text_of c) else st_w s)"
    and "st_ld s' = (if map_of c ''name'' = Some (Str ''LD'') then Some (text_of c) else st_ld s)"
    and "st_oc s' = (if map_of c ''name'' = Some (Str ''OC'') then Some (text_of c) else st_oc s)"
    and "st_active s' = st_active s" and "st_name s' = st_name s"
    and "st_showName s' = st_showName s" and "st_showDamagedMarker s' = st_showDamagedMarker s"
proof -
  have eq: "s' =
     (if map_of c ''name'' = Some (Str ''M'') then s\<lparr>st_m := Some (text_of c)\<rparr>
      else if map_of c ''name'' = Some (Str ''T'') then s\<lparr>st_t := Some (text_of c)\<rparr>
      else if map_of c ''name'' = Some (Str ''SV'') then s\<lparr>st_sv := Some (text_of c)\<rparr>
      else if map_of c ''name'' = Some (Str ''W'') then s\<lparr>st_w := Some (text_of c)\<rparr>
      else if map_of c ''name'' = Some (Str ''LD'') then s\<lparr>st_ld := Some (text_of c)\<rparr>
      else if map_of c ''name'' = Some (Str ''OC'') then s\<lparr>st_oc := Some (text_of c)\<rparr>
      else s)"
    using assms
    by (simp add: stat_char_step_def py_get_def py_get_default_def text_of_def split: if_splits)
  show "st_m s' = (if map_of c ''name'' = Some (Str ''M'') then Some (text_of c) else st_m s)"
    by (simp add: eq)
  show "st_t s' = (if map_of c ''name'' = Some (Str ''T'') then Some (text_of c) else st_t s)"
    by (simp add: eq)
  show "st_sv s' = (if map_of c ''name'' = Some (Str ''SV'') then Some (text_of c) else st_sv s)"
    by (simp add: eq)
  show "st_w s' = (if map_of c ''name'' = Some (Str ''W'') then Some (text_of c) else st_w s)"
    by (simp add: eq)
  show "st_ld s' = (if map_of c ''name'' = Some (Str ''LD'') then Some (text_of c) else st_ld s)"
    by (simp add: eq)
  show "st_oc s' = (if map_of c ''name'' = Some (Str ''OC'') then Some (text_of c) else st_oc s)"
    by (simp add: eq)
  show "st_active s' = st_active s" by (simp add: eq)
  show "st_name s' = st_name s" by (simp add: eq)
  show "st_showName s' = st_showName s" by (simp add: eq)
  show "st_showDamagedMarker s' = st_showDamagedMarker s" by (simp add: eq)
qed

lemma stat_loop:
  assumes "for_each stat_char_step (map Dict cs) s = Inr s'"
  shows "s' = s\<lparr>st_m := later_value (st_m s) (characteristic_text cs ''M''),
                 st_t := later_value (st_t s) (characteristic_text cs ''T''),
                 st_sv := later_value (st_sv s) (characteristic_text cs ''SV''),
                 st_w := later_value (st_w s) (characteristic_text cs ''W''),
                 st_ld := later_value (st_ld s) (characteristic_text cs ''LD''),
                 st_oc := later_value (st_oc s) (characteristic_text cs ''OC'')\<rparr>"
proof -
  have "st_m s' = later_value (st_m s) (characteristic_text cs ''M'')"
    by (rule stat_loop_field [OF stat_char_step_cases(1) assms])
  moreover have "st_t s' = later_value (st_t s) (characteristic_text cs ''T'')"
    by (rule stat_loop_field [OF stat_char_step_cases(2) assms])
  moreover have "st_sv s' = later_value (st_sv s) (characteristic_text cs ''SV'')"
    by (rule stat_loop_field [OF stat_char_step_cases(3) assms])
  moreover have "st_w s' = later_value (st_w s) (characteristic_text cs ''W'')"
    by (rule stat_loop_field [OF stat_char_step_cases(4) assms])
  moreover have "st_ld s' = later_value (st_ld s) (characteristic_text cs ''LD'')"
    by (rule stat_loop_field [OF stat_char_step_cases(5) assms])
  moreover have "st_oc s' = later_value (st_oc s) (characteristic_text cs ''OC'')"
    by (rule stat_loop_field [OF stat_char_step_cases(6) assms])
  moreover have "st_active s' = st_active s"
    by (rule stat_loop_kept [OF stat_char_step_cases(7) assms])
  moreover have "st_name s' = st_name s"
    by (rule stat_loop_kept [OF stat_char_step_cases(8) assms])
  moreover have "st_showName s' = st_showName s"
    by (rule stat_loop_kept [OF stat_char_step_cases(9) assms])
  moreover have "st_showDamagedMarker s' = st_showDamagedMarker s"
    by (rule stat_loop_kept [OF stat_char_step_cases(10) assms])
  ultimately show ?thesis by simp
qed

lemma stat_profile_step_wf:
  assumes "wf_profile p"
  shows "stat_profile_step (Dict p) stats =
     Inr (if is_unit_profile p \<and> resolved_name p \<noteq> Str '''' then stats @ [stat_row p]
          else stats)"
proof (cases "is_unit_profile p")
  case False
  then show ?thesis by (simp add: stat_profile_step_def py_get_def is_unit_profile_def)
next
  case True
  let ?s0 = "\<lparr>st_active = True, st_name = resolved_name p, st_showName = False,
      st_showDamagedMarker = False, st_m = None, st_t = None, st_sv = None, st_w = None,
      st_ld = None, st_oc = None\<rparr>"
  let ?cs = "section_items p ''characteristics'' ''characteristic''"
  have sec: "section_of p ''characteristics'' ''characteristic'' wf_characteristic"
    using assms by (simp add: wf_profile_def)
  have loop_eq: "over_section (Dict p) ''characteristics'' ''characteristic'' stat_char_step ?s0 =
      for_each stat_char_step (map Dict ?cs) ?s0"
    by (rule over_section_wf(1) [OF sec])
  have "\<exists>s'. for_each stat_char_step (map Dict ?cs) ?s0 = Inr s'"
    by (rule for_each_succeeds) (auto simp: stat_char_step_succeeds)
  then obtain s' where s': "for_each stat_char_step (map Dict ?cs) ?s0 = Inr s'" by blast
  have row: "s' = stat_row p"
    using stat_loop [OF s'] by (simp add: stat_row_def Let_def)
  obtain n where n: "resolved_name p = Str n"
    using assms
    by (auto simp: wf_profile_def text_if_present_def resolved_name_def
        split: option.splits ssv.splits)
  have name: "py_get_default (Dict p) ''name'' (Str '''') = Inr (resolved_name p)"
    by (simp add: py_get_default_def resolved_name_def)
  have "st_name (stat_row p) = resolved_name p" by (simp add: stat_row_def Let_def)
  then have "py_truthy (st_name (stat_row p)) \<longleftrightarrow> resolved_name p \<noteq> Str ''''"
    using n by (simp add: py_truthy_def)
  then show ?thesis
    using True name loop_eq s' row
    by (simp add: stat_profile_step_def py_get_def is_unit_profile_def)
qed

lemma stat_profile_loop:
  assumes "list_all wf_profile ps"
  shows "for_each stat_profile_step (map Dict ps) stats =
     Inr (stats @ map stat_row
            (filter (\<lambda>p. is_unit_profile p \<and> resolved_name p \<noteq> Str '''') ps))"
  using assms by (induction ps arbitrary: stats) (simp_all add: stat_profile_step_wf)

lemma extract_stats_wf:
  assumes "wf_entry se"
  shows "extract_stats (Dict se) =
     Inr (map stat_row
            (filter (\<lambda>p. is_unit_profile p \<and> resolved_name p \<noteq> Str '''')
               (section_items se ''profiles'' ''profile'')))"
proof -
  have sec: "section_of se ''profiles'' ''profile'' wf_profile"
    using assms by (simp add: wf_entry_def)
  show ?thesis
    unfolding extract_stats_def over_section_wf(1) [OF sec]
    using stat_profile_loop [OF over_section_wf(2) [OF sec], of "[]"] by simp
qed

lemma enhancement_char_step_succeeds: "\<exists>enh'. enhancement_char_step (Dict c) enh = Inr enh'"
  by (simp add: enhancement_char_step_def py_get_def py_get_default_def)

lemma enhancement_profile_step_succeeds:
  assumes "wf_profile p"
  shows "\<exists>enh'. enhancement_profile_step (Dict p) enh = Inr enh'"
proof (cases "map_of p ''typeId'' = Some (Str ''9cc3-6d83-4dd3-9b64'')")
  case False
  then show ?thesis by (simp add: enhancement_profile_step_def py_get_def)
next
  case True
  have sec: "section_of p ''characteristics'' ''characteristic'' wf_characteristic"
    using assms by (simp add: wf_profile_def)
  show ?thesis
  proof (cases "map_of p ''characteristics''")
    case None
    then show ?thesis
      using True by (simp add: enhancement_profile_step_def py_get_def py_contains_Dict)
  next
    case (Some cv)
    then obtain cd where cd: "cv = Dict cd"
      using sec by (cases cv) (simp_all add: section_of_def)
    show ?thesis
    proof (cases "map_of cd ''characteristic''")
      case None
      then show ?thesis
        using True Some cd
        by (simp add: enhancement_profile_step_def py_get_def py_contains_Dict py_index_def)
    next
      case (Some items)
      then have "list_all (\<lambda>x. case x of Dict i \<Rightarrow> wf_characteristic i | _ \<Rightarrow> False) (as_list items)"
        using sec \<open>map_of p ''characteristics'' = Some cv\<close> cd by (simp add: section_of_def)
      then have items: "as_list items = map Dict (records_of (as_list items))"
        using records_of_all by blast
      have "\<exists>enh'. for_each enhancement_char_step (map Dict (records_of (as_list items))) enh
              = Inr enh'"
        by (rule for_each_succeeds) (auto simp: enhancement_char_step_succeeds)
      then have "\<exists>enh'. for_each enhancement_char_step (as_list items) enh = Inr enh'"
        using items by simp
      then show ?thesis
        using True Some cd \<open>map_of p ''characteristics'' = Some cv\<close>
        by (simp add: enhancement_profile_step_def py_get_def py_contains_Dict py_index_def)
    qed
  qed
qed

lemma enhancement_profiles_succeed:
  assumes "section_of se ''profiles'' ''profile'' wf_profile"
  shows "\<exists>enh'.
     (if py_contains ''profiles'' (Dict se) then
        py_bind (py_index (Dict se) ''profiles'') (\<lambda>profiles.
          case profiles of
            Dict d \<Rightarrow>
              (if py_contains ''profile'' profiles then
                 py_bind (py_index profiles ''profile'') (\<lambda>p.
                   for_each enhancement_profile_step (as_list p) enh)
               else Inr enh)
          | _ \<Rightarrow> Inr enh)
      else Inr enh) = Inr enh'"
proof (cases "map_of se ''profiles''")
  case None
  then show ?thesis by (simp add: py_contains_Dict)
next
  case (Some pv)
  then obtain pd where pd: "pv = Dict pd"
    using assms by (cases pv) (simp_all add: section_of_def)
  show ?thesis
  proof (cases "map_of pd ''profile''")
    case None
    then show ?thesis using Some pd by (simp add: py_contains_Dict py_index_def)
  next
    case (Some items)
    then have "list_all (\<lambda>x. case x of Dict i \<Rightarrow> wf_profile i | _ \<Rightarrow> False) (as_list items)"
      using assms \<open>map_of se ''profiles'' = Some pv\<close> pd by (simp add: section_of_def)
    then have items: "as_list items = map Dict (records_of (as_list items))"
      and ok: "list_all wf_profile (records_of (as_list items))"
      using records_of_all by blast+
    have "\<exists>enh'. for_each enhancement_profile_step (map Dict (records_of (as_list items))) enh
            = Inr enh'"
      using ok by (intro for_each_succeeds) (auto simp: list_all_iff enhancement_profile_step_succeeds)
    then have "\<exists>enh'. for_each enhancement_profile_step (as_list items) enh = Inr enh'"
      using items by simp
    then show ?thesis
      using Some pd \<open>map_of se ''profiles'' = Some pv\<close>
      by (simp add: py_contains_Dict py_index_def)
  qed
qed

lemma extract_enhancements_succeeds:
  assumes "wf_entry se"
  shows "\<exists>r. extract_enhancements uid (Dict se) = Inr r"
proof (cases "map_of se ''type'' = Some (Str ''upgrade'')")
  case False
  then show ?thesis by (simp add: extract_enhancements_def py_get_def)
next
  case True
  let ?enh = "\<lparr>en_name = (case map_of se ''name'' of Some v \<Rightarrow> v | None \<Rightarrow> Str ''''),
      en_id = uid, en_cost = ''0'', en_keywords = [''Dark Angels''], en_excludes = [],
      en_description = Str '''', en_faction_id = ''CHDA'', en_source = ''40k-10e'',
      en_cardType = ''enhancement'', en_detachment = ''Wrath of the Rock''\<rparr>"
  have sec: "section_of se ''profiles'' ''profile'' wf_profile"
    using assms by (simp add: wf_entry_def)
  from enhancement_profiles_succeed [OF sec, of ?enh] obtain enh' where
    "(if py_contains ''profiles'' (Dict se) then
        py_bind (py_index (Dict se) ''profiles'') (\<lambda>profiles.
          case profiles of
            Dict d \<Rightarrow>
              (if py_contains ''profile'' profiles then
                 py_bind (py_index profiles ''profile'') (\<lambda>p.
                   for_each enhancement_profile_step (as_list p) ?enh)
               else Inr ?enh)
          | _ \<Rightarrow> Inr ?enh)
      else Inr ?enh) = Inr enh'"
    by blast
  then have "extract_enhancements uid (Dict se) = Inr (Some enh')"
    using True
    by (simp add: extract_enhancements_def py_get_def py_get_default_def Let_def)
  then show ?thesis by blast
qed

lemma extract_datasheet_succeeds:
  assumes "wf_entry se"
  shows "\<exists>r. extract_datasheet sr uid (Dict se) = Inr r"
proof -
  obtain a where "extract_abilities sr (Dict se) = Inr a"
    using extract_abilities_succeeds [OF assms] by blast
  moreover obtain st where "extract_stats (Dict se) = Inr st"
    using extract_stats_wf [OF assms] by blast
  moreover obtain r where "extract_weapons (Dict se) ''ranged'' = Inr r"
    using extract_weapons_succeeds [OF assms] by blast
  moreover obtain m where "extract_weapons (Dict se) ''melee'' = Inr m"
    using extract_weapons_succeeds [OF assms] by blast
  moreover obtain ks where "extract_keywords (Dict se) = Inr ks"
    using extract_keywords_succeeds [OF assms] by blast
  moreover obtain ps where "extract_points (Dict se) = Inr ps"
    using extract_points_succeeds [OF assms] by blast
  ultimately show ?thesis
    by (simp add: extract_datasheet_def py_get_def py_get_default_def)
qed

section \<open>Extraction as a function of the entry\<close>

subsection \<open>Abilities\<close>

lemma add_abilities_Nil [simp]: "add_abilities sr [] a = a"
  by (simp add: add_abilities_def)

lemma add_abilities_append:
  "add_abilities sr (xs @ ys) a = add_abilities sr ys (add_abilities sr xs a)"
  by (simp add: add_abilities_def)

lemma add_abilities_step:
  "add_abilities sr xs (add_abilities sr [x] a) = add_abilities sr (x # xs) a"
  using add_abilities_append [of sr "[x]" xs a] by simp

lemma add_abilities_join:
  "add_abilities sr ys (add_abilities sr xs a) = add_abilities sr (xs @ ys) a"
  by (simp add: add_abilities_append)

lemma classify_ability_text:
  "classify_ability sr (Str s) descr b a =
     Inr (add_abilities sr
            [\<lparr>ab_name = s, ab_description = descr, ab_showAbility = True,
              ab_showDescription = b\<rparr>] a)"
  by (simp add: classify_ability_def add_abilities_def)

lemma name_text_default:
  assumes "text_if_present d ''name''"
  shows "py_get_default (Dict d) ''name'' (Str '''') = Inr (Str (name_text d))"
  using assms
  by (auto simp: text_if_present_def py_get_default_def name_text_def
      split: option.splits ssv.splits)

lemma info_link_rule_name_wf:
  assumes "wf_info_link il"
  shows "info_link_rule_name (Dict il) = Inr (Str (link_rule_name il))"
proof -
  have base: "py_get_default (Dict il) ''name'' (Str '''') = Inr (Str (name_text il))"
    using assms by (intro name_text_default) (simp add: wf_info_link_def)
  have sec: "section_of il ''modifiers'' ''modifier'' text_valued"
    using assms by (simp add: wf_info_link_def)
  let ?ms = "section_items il ''modifiers'' ''modifier''"
  have valued: "\<forall>m \<in> set ?ms. is_name_append m \<longrightarrow> text_valued m"
    using over_section_wf(2) [OF sec] by (simp add: list_all_iff)
  have loop: "over_section (Dict il) ''modifiers'' ''modifier'' modifier_step (Str (name_text il))
      = Inr (Str (link_rule_name il))"
    unfolding over_section_wf(1) [OF sec] link_rule_name_def
    by (rule modifier_loop [OF valued])
  have "info_link_rule_name (Dict il) =
      over_section (Dict il) ''modifiers'' ''modifier'' modifier_step (Str (name_text il))"
  proof (cases "map_of il ''modifiers''")
    case None
    then show ?thesis
      by (simp add: info_link_rule_name_def base over_section_Dict py_contains_Dict)
  next
    case (Some mv)
    then show ?thesis
      by (simp add: info_link_rule_name_def base over_section_Dict py_contains_Dict
          py_index_def)
  qed
  then show ?thesis using loop by simp
qed

lemma info_link_step_wf:
  assumes "wf_info_link il"
  shows "info_link_step sr (Dict il) a = Inr (add_abilities sr [link_ability il] a)"
  using info_link_rule_name_wf [OF assms]
  by (simp add: info_link_step_def classify_ability_text link_ability_def)

lemma info_link_loop:
  assumes "list_all wf_info_link ils"
  shows "for_each (info_link_step sr) (map Dict ils) a =
           Inr (add_abilities sr (map link_ability ils) a)"
  using assms
proof (induction ils arbitrary: a)
  case Nil
  then show ?case by simp
next
  case (Cons il ils)
  then show ?case
    by (simp add: info_link_step_wf add_abilities_step)
qed

lemma ability_char_step_wf:
  assumes "text_if_present p ''name''"
  shows "ability_char_step sr (Dict p) (Dict c) a =
     Inr (add_abilities sr
            (if is_description c
             then [\<lparr>ab_name = name_text p, ab_description = text_of c, ab_showAbility = True,
                    ab_showDescription = True\<rparr>]
             else []) a)"
  using name_text_default [OF assms]
  by (simp add: ability_char_step_def py_get_def py_get_default_def classify_ability_text
      is_description_def text_of_def)

lemma ability_char_loop:
  assumes "text_if_present p ''name''"
  shows "for_each (ability_char_step sr (Dict p)) (map Dict cs) a =
     Inr (add_abilities sr
            (map (\<lambda>c. \<lparr>ab_name = name_text p, ab_description = text_of c, ab_showAbility = True,
                       ab_showDescription = True\<rparr>) (filter is_description cs)) a)"
proof (induction cs arbitrary: a)
  case Nil
  then show ?case by simp
next
  case (Cons c cs)
  show ?case
    using Cons.IH
    by (simp add: ability_char_step_wf [OF assms] add_abilities_step)
qed

lemma ability_profile_step_wf:
  assumes "wf_profile p"
  shows "ability_profile_step sr (Dict p) a =
     Inr (add_abilities sr (if is_ability_profile p then profile_abilities p else []) a)"
proof (cases "is_ability_profile p")
  case False
  then show ?thesis by (simp add: ability_profile_step_def py_get_def is_ability_profile_def)
next
  case True
  have sec: "section_of p ''characteristics'' ''characteristic'' wf_characteristic"
    and nm: "text_if_present p ''name''"
    using assms by (simp_all add: wf_profile_def)
  show ?thesis
    using True
    by (simp add: ability_profile_step_def py_get_def is_ability_profile_def
        over_section_wf(1) [OF sec] ability_char_loop [OF nm] profile_abilities_def)
qed

lemma ability_profile_loop:
  assumes "list_all wf_profile ps"
  shows "for_each (ability_profile_step sr) (map Dict ps) a =
     Inr (add_abilities sr (concat (map profile_abilities (filter is_ability_profile ps))) a)"
  using assms
proof (induction ps arbitrary: a)
  case Nil
  then show ?case by simp
next
  case (Cons p ps)
  then show ?case
    by (simp add: ability_profile_step_wf add_abilities_join)
qed

lemma extract_abilities_wf:
  assumes "section_of se ''infoLinks'' ''infoLink'' wf_info_link"
    and "section_of se ''profiles'' ''profile'' wf_profile"
  shows "extract_abilities sr (Dict se) =
           Inr (add_abilities sr (derived_abilities se) initial_abilities)"
  unfolding extract_abilities_def over_section_wf(1) [OF assms(1)] over_section_wf(1) [OF assms(2)]
  by (simp add: info_link_loop [OF over_section_wf(2) [OF assms(1)]]
      ability_profile_loop [OF over_section_wf(2) [OF assms(2)]]
      derived_abilities_def add_abilities_join)

subsection \<open>Weapon profiles\<close>

lemma last_match_Cons:
  "last_match P f (c # cs) =
     (if P c then later_value (Some (f c)) (last_match P f cs) else last_match P f cs)"
  by (auto simp: last_match_def later_value_def split: list.splits)

lemma characteristic_text_last_match:
  "characteristic_text cs k = last_match (\<lambda>c. map_of c ''name'' = Some (Str k)) text_of cs"
  by (simp add: characteristic_text_def last_match_def)

lemma loop_last_match:
  assumes "\<And>c s s'. ok c \<Longrightarrow> step (Dict c) s = Inr s' \<Longrightarrow>
             g s' = (if P c then Some (f c) else g s)"
    and "list_all ok cs"
    and "for_each step (map Dict cs) s = Inr s'"
  shows "g s' = later_value (g s) (last_match P f cs)"
  using assms(2,3)
proof (induction cs arbitrary: s)
  case Nil
  then show ?case by (simp add: last_match_def later_value_def)
next
  case (Cons c cs)
  from Cons.prems(2) obtain t where t: "step (Dict c) s = Inr t"
    and rest: "for_each step (map Dict cs) t = Inr s'"
    by (auto simp: py_bind_eq_Inr)
  have "g s' = later_value (g t) (last_match P f cs)"
    using Cons.IH [OF _ rest] Cons.prems(1) by simp
  moreover have "g t = (if P c then Some (f c) else g s)"
    using assms(1) [OF _ t] Cons.prems(1) by simp
  ultimately show ?case
    by (simp add: last_match_Cons later_value_def split: option.splits)
qed

lemma loop_kept:
  assumes "\<And>c s s'. ok c \<Longrightarrow> step (Dict c) s = Inr s' \<Longrightarrow> g s' = g s"
    and "list_all ok cs"
    and "for_each step (map Dict cs) s = Inr s'"
  shows "g s' = g s"
proof (rule for_each_invariant [OF assms(3), where P = "\<lambda>t. g t = g s"])
  show "g s = g s" ..
next
  fix x t t'
  assume x: "x \<in> set (map Dict cs)" and kept: "g t = g s" and step: "step x t = Inr t'"
  from x obtain c where c: "x = Dict c" "c \<in> set cs" by auto
  then have "ok c" using assms(2) by (simp add: list_all_iff)
  then show "g t' = g s" using assms(1) [of c t t'] step kept c by simp
qed

lemma text_of_wf:
  "wf_characteristic c \<Longrightarrow> text_of c = Str (text_string c)"
  by (auto simp: wf_characteristic_def text_if_present_def text_of_def text_string_def
      split: option.splits ssv.splits)

lemma weapon_char_step_wf:
  assumes "wf_characteristic c"
  shows "weapon_char_step (Dict c) s =
     Inr (if map_of c ''name'' = Some (Str ''Range'') then s\<lparr>wp_range := Some (text_of c)\<rparr>
      else if map_of c ''name'' = Some (Str ''A'') then s\<lparr>wp_attacks := Some (text_of c)\<rparr>
      else if map_of c ''name'' = Some (Str ''BS'') then s\<lparr>wp_skill := Some (text_of c)\<rparr>
      else if map_of c ''name'' = Some (Str ''S'') then s\<lparr>wp_strength := Some (text_of c)\<rparr>
      else if map_of c ''name'' = Some (Str ''AP'') then s\<lparr>wp_ap := Some (text_of c)\<rparr>
      else if map_of c ''name'' = Some (Str ''D'') then s\<lparr>wp_damage := Some (text_of c)\<rparr>
      else if is_keywords c then s\<lparr>wp_keywords := Some (keyword_list c)\<rparr>
      else s)"
proof -
  have txt_eq: "py_get_default (Dict c) ''_text'' (Str '''') = Inr (Str (text_string c))"
    using text_of_wf [OF assms] by (simp add: py_get_default_def text_of_def)
  have kw: "keywords_of_text (Str (text_string c)) s =
      Inr (if text_string c \<noteq> '''' then s\<lparr>wp_keywords := Some (keyword_list c)\<rparr> else s)"
    by (simp add: keywords_of_text_def py_truthy_def keyword_list_def)
  show ?thesis
    unfolding weapon_char_step_def
    by (simp add: py_get_def txt_eq kw text_of_wf [OF assms] is_keywords_def)
qed

lemma weapon_char_step_fields:
  assumes "wf_characteristic c" and "weapon_char_step (Dict c) s = Inr s'"
  shows "wp_range s' = (if map_of c ''name'' = Some (Str ''Range'') then Some (text_of c) else wp_range s)"
    and "wp_attacks s' = (if map_of c ''name'' = Some (Str ''A'') then Some (text_of c) else wp_attacks s)"
    and "wp_skill s' = (if map_of c ''name'' = Some (Str ''BS'') then Some (text_of c) else wp_skill s)"
    and "wp_strength s' = (if map_of c ''name'' = Some (Str ''S'') then Some (text_of c) else wp_strength s)"
    and "wp_ap s' = (if map_of c ''name'' = Some (Str ''AP'') then Some (text_of c) else wp_ap s)"
    and "wp_damage s' = (if map_of c ''name'' = Some (Str ''D'') then Some (text_of c) else wp_damage s)"
    and "wp_keywords s' = (if is_keywords c then Some (keyword_list c) else wp_keywords s)"
    and "wp_active s' = wp_active s" and "wp_name s' = wp_name s"
proof -
  have eq: "s' =
     (if map_of c ''name'' = Some (Str ''Range'') then s\<lparr>wp_range := Some (text_of c)\<rparr>
      else if map_of c ''name'' = Some (Str ''A'') then s\<lparr>wp_attacks := Some (text_of c)\<rparr>
      else if map_of c ''name'' = Some (Str ''BS'') then s\<lparr>wp_skill := Some (text_of c)\<rparr>
      else if map_of c ''name'' = Some (Str ''S'') then s\<lparr>wp_strength := Some (text_of c)\<rparr>
      else if map_of c ''name'' = Some (Str ''AP'') then s\<lparr>wp_ap := Some (text_of c)\<rparr>
      else if map_of c ''name'' = Some (Str ''D'') then s\<lparr>wp_damage := Some (text_of c)\<rparr>
      else if is_keywords c then s\<lparr>wp_keywords := Some (keyword_list c)\<rparr>
      else s)"
    using assms(2) unfolding weapon_char_step_wf [OF assms(1)] by simp
  show "wp_range s' = (if map_of c ''name'' = Some (Str ''Range'') then Some (text_of c) else wp_range s)"
    by (simp add: eq)
  show "wp_attacks s' = (if map_of c ''name'' = Some (Str ''A'') then Some (text_of c) else wp_attacks s)"
    by (simp add: eq)
  show "wp_skill s' = (if map_of c ''name'' = Some (Str ''BS'') then Some (text_of c) else wp_skill s)"
    by (simp add: eq)
  show "wp_strength s' = (if map_of c ''name'' = Some (Str ''S'') then Some (text_of c) else wp_strength s)"
    by (simp add: eq)
  show "wp_ap s' = (if map_of c ''name'' = Some (Str ''AP'') then Some (text_of c) else wp_ap s)"
    by (simp add: eq)
  show "wp_damage s' = (if map_of c ''name'' = Some (Str ''D'') then Some (text_of c) else wp_damage s)"
    by (simp add: eq)
  show "wp_keywords s' = (if is_keywords c then Some (keyword_list c) else wp_keywords s)"
    by (simp add: eq is_keywords_def)
  show "wp_active s' = wp_active s" by (simp add: eq)
  show "wp_name s' = wp_name s" by (simp add: eq)
qed

lemma weapon_loop:
  assumes "list_all wf_characteristic cs"
    and "for_each weapon_char_step (map Dict cs) s = Inr s'"
  shows "s' = s\<lparr>wp_range := later_value (wp_range s) (characteristic_text cs ''Range''),
                 wp_attacks := later_value (wp_attacks s) (characteristic_text cs ''A''),
                 wp_skill := later_value (wp_skill s) (characteristic_text cs ''BS''),
                 wp_strength := later_value (wp_strength s) (characteristic_text cs ''S''),
                 wp_ap := later_value (wp_ap s) (characteristic_text cs ''AP''),
                 wp_damage := later_value (wp_damage s) (characteristic_text cs ''D''),
                 wp_keywords := later_value (wp_keywords s) (last_match is_keywords keyword_list cs)\<rparr>"
proof -
  have "wp_range s' = later_value (wp_range s) (characteristic_text cs ''Range'')"
    unfolding characteristic_text_last_match
    by (rule loop_last_match [OF weapon_char_step_fields(1) assms])
  moreover have "wp_attacks s' = later_value (wp_attacks s) (characteristic_text cs ''A'')"
    unfolding characteristic_text_last_match
    by (rule loop_last_match [OF weapon_char_step_fields(2) assms])
  moreover have "wp_skill s' = later_value (wp_skill s) (characteristic_text cs ''BS'')"
    unfolding characteristic_text_last_match
    by (rule loop_last_match [OF weapon_char_step_fields(3) assms])
  moreover have "wp_strength s' = later_value (wp_strength s) (characteristic_text cs ''S'')"
    unfolding characteristic_text_last_match
    by (rule loop_last_match [OF weapon_char_step_fields(4) assms])
  moreover have "wp_ap s' = later_value (wp_ap s) (characteristic_text cs ''AP'')"
    unfolding characteristic_text_last_match
    by (rule loop_last_match [OF weapon_char_step_fields(5) assms])
  moreover have "wp_damage s' = later_value (wp_damage s) (characteristic_text cs ''D'')"
    unfolding characteristic_text_last_match
    by (rule loop_last_match [OF weapon_char_step_fields(6) assms])
  moreover have "wp_keywords s' = later_value (wp_keywords s) (last_match is_keywords keyword_list cs)"
    by (rule loop_last_match [OF weapon_char_step_fields(7) assms])
  moreover have "wp_active s' = wp_active s"
    by (rule loop_kept [OF weapon_char_step_fields(8) assms])
  moreover have "wp_name s' = wp_name s"
    by (rule loop_kept [OF weapon_char_step_fields(9) assms])
  ultimately show ?thesis by simp
qed

lemma weapon_row_built:
  assumes "wf_profile p"
  shows "over_section (Dict p) ''characteristics'' ''characteristic'' weapon_char_step
           \<lparr>wp_active = True, wp_name = name_text p, wp_range = None, wp_attacks = None,
            wp_skill = None, wp_strength = None, wp_ap = None, wp_damage = None,
            wp_keywords = None\<rparr> = Inr (weapon_row p)"
proof -
  let ?s0 = "\<lparr>wp_active = True, wp_name = name_text p, wp_range = None, wp_attacks = None,
            wp_skill = None, wp_strength = None, wp_ap = None, wp_damage = None,
            wp_keywords = None\<rparr>"
  let ?cs = "section_items p ''characteristics'' ''characteristic''"
  have sec: "section_of p ''characteristics'' ''characteristic'' wf_characteristic"
    using assms by (simp add: wf_profile_def)
  have ok: "list_all wf_characteristic ?cs" by (rule over_section_wf(2) [OF sec])
  have "\<exists>s'. for_each weapon_char_step (map Dict ?cs) ?s0 = Inr s'"
    using ok by (intro for_each_succeeds) (auto simp: list_all_iff weapon_char_step_succeeds)
  then obtain s' where s': "for_each weapon_char_step (map Dict ?cs) ?s0 = Inr s'" by blast
  have "s' = weapon_row p"
    using weapon_loop [OF ok s'] by (simp add: weapon_row_def Let_def)
  then show ?thesis using s' by (simp add: over_section_wf(1) [OF sec])
qed

lemma weapon_profile_log_wf:
  assumes "wf_profile p"
  shows "weapon_profile_log wt (Dict p) log =
           Inr (log @ (if is_weapon_profile wt p then [weapon_row p] else []))"
proof (cases "is_weapon_profile wt p")
  case False
  then show ?thesis
    by (simp add: weapon_profile_log_def weapon_profile_step_def py_get_def
        is_weapon_profile_def)
next
  case True
  have nm: "py_get_default (Dict p) ''name'' (Str '''') = Inr (Str (name_text p))"
    using assms by (intro name_text_default) (simp add: wf_profile_def)
  show ?thesis
    using True
    by (simp add: weapon_profile_log_def weapon_profile_step_def py_get_def
        is_weapon_profile_def nm weapon_row_built [OF assms] append_profile_def Let_def)
qed

lemma weapon_profile_log_loop:
  assumes "list_all wf_profile ps"
  shows "for_each (weapon_profile_log wt) (map Dict ps) log =
           Inr (log @ map weapon_row (filter (is_weapon_profile wt) ps))"
  using assms by (induction ps arbitrary: log) (simp_all add: weapon_profile_log_wf)

lemma weapon_entry_log_loop:
  assumes "list_all wf_nested_entry es"
  shows "for_each (\<lambda>entry. over_section entry ''profiles'' ''profile'' (weapon_profile_log wt))
           (map Dict es) log =
         Inr (log @ map weapon_row
                (filter (is_weapon_profile wt)
                   (concat (map (\<lambda>entry. section_items entry ''profiles'' ''profile'') es))))"
  using assms
proof (induction es arbitrary: log)
  case Nil
  then show ?case by simp
next
  case (Cons e es)
  have sec: "section_of e ''profiles'' ''profile'' wf_profile"
    using Cons.prems by (simp add: wf_nested_entry_def)
  show ?case
    using Cons
    by (simp add: over_section_wf(1) [OF sec]
        weapon_profile_log_loop [OF over_section_wf(2) [OF sec]])
qed

lemma collected_profiles_wf:
  assumes "section_of se ''selectionEntries'' ''selectionEntry'' wf_nested_entry"
  shows "collected_profiles (Dict se) wt = Inr (weapon_profiles se wt)"
  unfolding collected_profiles_def over_section_wf(1) [OF assms]
  using weapon_entry_log_loop [OF over_section_wf(2) [OF assms], of wt "[]"]
  by (simp add: weapon_profiles_def)

lemma extract_weapons_wf:
  assumes "section_of se ''selectionEntries'' ''selectionEntry'' wf_nested_entry"
  shows "extract_weapons (Dict se) wt =
     Inr (map (group_named (weapon_profiles se wt))
            (first_occurrences (map wp_name (weapon_profiles se wt))))"
  by (simp add: extract_weapons_grouped collected_profiles_wf [OF assms] grouped_def comp_def)

subsection \<open>Keywords, points, enhancements and datasheets\<close>

lemma keyword_step_Dict:
  "keyword_step (Dict link) ks =
     Inr (ks @ (case map_of link ''name'' of Some v \<Rightarrow> [v] | None \<Rightarrow> []))"
  by (auto simp: keyword_step_def py_contains_Dict py_index_def split: option.splits)

lemma keyword_loop:
  "for_each keyword_step (map Dict links) ks =
     Inr (ks @ concat (map (\<lambda>link. case map_of link ''name'' of Some v \<Rightarrow> [v] | None \<Rightarrow> []) links))"
  by (induction links arbitrary: ks) (simp_all add: keyword_step_Dict)

lemma extract_keywords_wf:
  assumes "section_of se ''categoryLinks'' ''categoryLink'' (\<lambda>link. True)"
  shows "extract_keywords (Dict se) = Inr (keywords_of se)"
  by (simp add: extract_keywords_def over_section_wf(1) [OF assms] keyword_loop keywords_of_def)

lemma extract_points_wf:
  assumes "section_of se ''costs'' ''cost'' (\<lambda>cost. True)"
  shows "extract_points (Dict se) = Inr (points_of se)"
  by (simp add: extract_points_def over_section_wf(1) [OF assms] point_loop points_of_def)

lemma last_or_Nil [simp]: "last_or d [] = d"
  by (simp add: last_or_def)

lemma last_or_Cons [simp]: "last_or d (x # xs) = last_or x xs"
  by (cases xs) (simp_all add: last_or_def)

lemma last_or_append: "last_or d (xs @ ys) = last_or (last_or d xs) ys"
  by (induction xs arbitrary: d) simp_all

lemma enhancement_char_step_Dict:
  "enhancement_char_step (Dict c) enh =
     Inr (if is_description c then enh\<lparr>en_description := text_of c\<rparr> else enh)"
  by (simp add: enhancement_char_step_def py_get_def py_get_default_def is_description_def
      text_of_def)

lemma enhancement_char_loop:
  "for_each enhancement_char_step (map Dict cs) enh =
     Inr (enh\<lparr>en_description :=
            last_or (en_description enh) (map text_of (filter is_description cs))\<rparr>)"
  by (induction cs arbitrary: enh) (simp_all add: enhancement_char_step_Dict)

lemma contains_index_section:
  assumes "section_of d outer inner ok"
  shows "(if py_contains outer (Dict d) then
            py_bind (py_index (Dict d) outer) (\<lambda>sec.
              if py_contains inner sec then
                py_bind (py_index sec inner) (\<lambda>items. for_each step (as_list items) s)
              else Inr s)
          else Inr s) = for_each step (map Dict (section_items d outer inner)) s"
proof (cases "map_of d outer")
  case None
  then show ?thesis by (simp add: py_contains_Dict section_items_def)
next
  case (Some sec)
  then obtain sd where sd: "sec = Dict sd"
    using assms by (cases sec) (simp_all add: section_of_def)
  have "over_section (Dict d) outer inner step s =
      for_each step (map Dict (section_items d outer inner)) s"
    by (rule over_section_wf(1) [OF assms])
  moreover have "(if py_contains outer (Dict d) then
            py_bind (py_index (Dict d) outer) (\<lambda>sec.
              if py_contains inner sec then
                py_bind (py_index sec inner) (\<lambda>items. for_each step (as_list items) s)
              else Inr s)
          else Inr s) = over_section (Dict d) outer inner step s"
    using Some sd
    by (cases "map_of sd inner")
      (simp_all add: py_contains_Dict py_index_def over_section_Dict lookup_key_Dict)
  ultimately show ?thesis by simp
qed

lemma contains_index_record_section:
  assumes "section_of d outer inner ok"
  shows "(if py_contains outer (Dict d) then
            py_bind (py_index (Dict d) outer) (\<lambda>sec.
              case sec of
                Dict sd \<Rightarrow>
                  (if py_contains inner sec then
                     py_bind (py_index sec inner) (\<lambda>items. for_each step (as_list items) s)
                   else Inr s)
              | _ \<Rightarrow> Inr s)
          else Inr s) = for_each step (map Dict (section_items d outer inner)) s"
proof (cases "map_of d outer")
  case None
  then show ?thesis by (simp add: py_contains_Dict section_items_def)
next
  case (Some sec)
  then obtain sd where sd: "sec = Dict sd"
    using assms by (cases sec) (simp_all add: section_of_def)
  have "py_index (Dict d) outer = Inr (Dict sd)" "py_contains outer (Dict d)"
    using Some sd by (simp_all add: py_index_def py_contains_Dict)
  then show ?thesis
    using contains_index_section [OF assms, where step = step and s = s] by simp
qed

lemma enhancement_profile_step_wf:
  assumes "wf_profile p"
  shows "enhancement_profile_step (Dict p) enh =
     Inr (if is_ability_profile p
          then enh\<lparr>en_description :=
                 last_or (en_description enh)
                   (map text_of (filter is_description
                      (section_items p ''characteristics'' ''characteristic'')))\<rparr>
          else enh)"
proof -
  have sec: "section_of p ''characteristics'' ''characteristic'' wf_characteristic"
    using assms by (simp add: wf_profile_def)
  show ?thesis
    unfolding enhancement_profile_step_def
    by (simp add: py_get_def is_ability_profile_def
        contains_index_section [OF sec, where step = enhancement_char_step and s = enh]
        enhancement_char_loop)
qed

lemma enhancement_profile_loop:
  assumes "list_all wf_profile ps"
  shows "for_each enhancement_profile_step (map Dict ps) enh =
     Inr (enh\<lparr>en_description :=
            last_or (en_description enh)
              (concat (map (\<lambda>p. map text_of (filter is_description
                                   (section_items p ''characteristics'' ''characteristic'')))
                         (filter is_ability_profile ps)))\<rparr>)"
  using assms
  by (induction ps arbitrary: enh) (simp_all add: enhancement_profile_step_wf last_or_append)

lemma extract_enhancements_wf:
  assumes "section_of se ''profiles'' ''profile'' wf_profile"
  shows "extract_enhancements uid (Dict se) =
     Inr (if map_of se ''type'' = Some (Str ''upgrade'') then Some (enhancement_of uid se)
          else None)"
proof (cases "map_of se ''type'' = Some (Str ''upgrade'')")
  case False
  then show ?thesis by (simp add: extract_enhancements_def py_get_def)
next
  case True
  have nm: "py_get_default (Dict se) ''name'' (Str '''') = Inr (resolved_name se)"
    by (simp add: py_get_default_def resolved_name_def)
  let ?enh = "\<lparr>en_name = resolved_name se, en_id = uid, en_cost = ''0'',
      en_keywords = [''Dark Angels''], en_excludes = [], en_description = Str '''',
      en_faction_id = ''CHDA'', en_source = ''40k-10e'', en_cardType = ''enhancement'',
      en_detachment = ''Wrath of the Rock''\<rparr>"
  have "for_each enhancement_profile_step (map Dict (section_items se ''profiles'' ''profile''))
          ?enh = Inr (enhancement_of uid se)"
    by (simp add: enhancement_profile_loop [OF over_section_wf(2) [OF assms]]
        enhancement_of_def enhancement_descriptions_def)
  then have body: "(if py_contains ''profiles'' (Dict se) then
        py_bind (py_index (Dict se) ''profiles'') (\<lambda>profiles.
          case profiles of
            Dict d \<Rightarrow>
              (if py_contains ''profile'' profiles then
                 py_bind (py_index profiles ''profile'') (\<lambda>p.
                   for_each enhancement_profile_step (as_list p) ?enh)
               else Inr ?enh)
          | _ \<Rightarrow> Inr ?enh)
      else Inr ?enh) = Inr (enhancement_of uid se)"
    unfolding contains_index_record_section
        [OF assms, where step = enhancement_profile_step and s = ?enh] .
  show ?thesis
    using True body
    by (simp add: extract_enhancements_def py_get_def nm Let_def)
qed

lemma extract_datasheet_wf:
  assumes "wf_entry se"
  shows "extract_datasheet sr uid (Dict se) =
     Inr (if map_of se ''type'' = Some (Str ''model'') then Some (datasheet_of sr uid se)
          else None)"
proof (cases "map_of se ''type'' = Some (Str ''model'')")
  case False
  then show ?thesis by (simp add: extract_datasheet_def py_get_def)
next
  case True
  have nm: "py_get_default (Dict se) ''name'' (Str '''') = Inr (resolved_name se)"
    by (simp add: py_get_default_def resolved_name_def)
  have a: "extract_abilities sr (Dict se) = Inr (abilities_of sr se)"
    using assms by (simp add: extract_abilities_wf wf_entry_def abilities_of_def)
  have st: "extract_stats (Dict se) = Inr (stats_of se)"
    using extract_stats_wf [OF assms] by (simp add: stats_of_def)
  have w: "\<And>wt. extract_weapons (Dict se) wt = Inr (weapons_of se wt)"
    using assms by (simp add: extract_weapons_wf wf_entry_def weapons_of_def)
  have k: "extract_keywords (Dict se) = Inr (keywords_of se)"
    using assms by (simp add: extract_keywords_wf wf_entry_def)
  have pt: "extract_points (Dict se) = Inr (points_of se)"
    using assms by (simp add: extract_points_wf wf_entry_def)
  show ?thesis
    using True
    by (simp add: extract_datasheet_def py_get_def nm a st w k pt datasheet_of_def)
qed

lemmas wf_defs = wf_entry_def wf_nested_entry_def wf_info_link_def wf_profile_def
  wf_characteristic_def section_of_def text_if_present_def text_valued_def

lemmas extractor_defs = extract_datasheet_def extract_enhancements_def extract_abilities_def
  extract_stats_def extract_weapons_def extract_keywords_def extract_points_def
  info_link_step_def info_link_rule_name_def modifier_step_def classify_ability_def
  ability_profile_step_def ability_char_step_def stat_profile_step_def stat_char_step_def
  weapon_entry_step_def weapon_profile_step_def weapon_char_step_def keywords_of_text_def
  matches_weapon_type_def append_profile_def keyword_step_def point_step_def
  enhancement_profile_step_def enhancement_char_step_def
  over_section_Dict lookup_key_Dict py_contains_Dict py_index_def py_get_def
  py_get_default_def py_iadd_def py_truthy_def as_list_def

section \<open>Abilities: what goes to core and what to other\<close>

lemma partition_output:
  assumes "extract_abilities sr e = Inr a"
  shows "(\<forall>n \<in> set (core a). n \<in> sr) \<and> (\<forall>x \<in> set (other a). ab_name x \<notin> sr)"
proof -
  from extract_abilities_simulation [OF assms] obtain a0 where
    "classified sr a a0" by blast
  then show ?thesis by (auto simp: classified_def)
qed

text \<open>
  C4. For every selection entry and registry, an ability set that \<^verbatim>\<open>extract_abilities\<close>
  returns has only registered names in \<open>core\<close> and no registered name in \<open>other\<close>. When
  the infoLinks and the profiles of the entry are records, the names produced are those of
  \<open>derived_abilities\<close>: the synthesized rule name of each infoLink, then, for each ability
  profile, the profile's name once for each of its \<open>Description\<close> characteristics. The
  result is the initial ability set with \<open>core\<close> the registered ones of these names, in
  order, and \<open>other\<close> the full records (name and description) of the unregistered ones,
  in order. So each produced name that is registered is in \<open>core\<close> and is the name of no
  \<open>other\<close> record, and each produced name that is not registered has its record in
  \<open>other\<close> and is not in \<open>core\<close>.
\<close>

theorem core_other_partition:
  "(extract_abilities shared_rules selection_entry = Inr a \<longrightarrow>
      (\<forall>n \<in> set (core a). n \<in> shared_rules) \<and>
      (\<forall>x \<in> set (other a). ab_name x \<notin> shared_rules)) \<and>
   (section_of se ''infoLinks'' ''infoLink'' wf_info_link \<and>
    section_of se ''profiles'' ''profile'' wf_profile \<longrightarrow>
      (\<exists>b. extract_abilities shared_rules (Dict se) = Inr b \<and>
           b = initial_abilities
                 \<lparr>core := filter (\<lambda>n. n \<in> shared_rules) (map ab_name (derived_abilities se)),
                  other := filter (\<lambda>x. ab_name x \<notin> shared_rules) (derived_abilities se)\<rparr> \<and>
           (\<forall>x \<in> set (derived_abilities se).
              (ab_name x \<in> shared_rules \<longrightarrow>
                 ab_name x \<in> set (core b) \<and> ab_name x \<notin> ab_name ` set (other b)) \<and>
              (ab_name x \<notin> shared_rules \<longrightarrow>
                 x \<in> set (other b) \<and> ab_name x \<notin> set (core b)))))"
proof (intro conjI impI)
  assume "extract_abilities shared_rules selection_entry = Inr a"
  then show "\<forall>n \<in> set (core a). n \<in> shared_rules"
    and "\<forall>x \<in> set (other a). ab_name x \<notin> shared_rules"
    using partition_output by blast+
next
  assume wf: "section_of se ''infoLinks'' ''infoLink'' wf_info_link \<and>
    section_of se ''profiles'' ''profile'' wf_profile"
  let ?b = "initial_abilities
                 \<lparr>core := filter (\<lambda>n. n \<in> shared_rules) (map ab_name (derived_abilities se)),
                  other := filter (\<lambda>x. ab_name x \<notin> shared_rules) (derived_abilities se)\<rparr>"
  have run: "extract_abilities shared_rules (Dict se) = Inr ?b"
    using wf by (simp add: extract_abilities_wf add_abilities_def initial_abilities_def)
  have "\<forall>x \<in> set (derived_abilities se).
              (ab_name x \<in> shared_rules \<longrightarrow>
                 ab_name x \<in> set (core ?b) \<and> ab_name x \<notin> ab_name ` set (other ?b)) \<and>
              (ab_name x \<notin> shared_rules \<longrightarrow>
                 x \<in> set (other ?b) \<and> ab_name x \<notin> set (core ?b))"
    by auto
  then show "\<exists>b. extract_abilities shared_rules (Dict se) = Inr b \<and>
           b = ?b \<and>
           (\<forall>x \<in> set (derived_abilities se).
              (ab_name x \<in> shared_rules \<longrightarrow>
                 ab_name x \<in> set (core b) \<and> ab_name x \<notin> ab_name ` set (other b)) \<and>
              (ab_name x \<notin> shared_rules \<longrightarrow>
                 x \<in> set (other b) \<and> ab_name x \<notin> set (core b)))"
    using run by blast
qed

theorem core_other_partition_witness:
  "extract_abilities {''Leader''}
     (Dict [(''infoLinks'', Dict [(''infoLink'', Lst [
               Dict [(''name'', Str ''Leader'')],
               Dict [(''name'', Str ''Deadly Demise''),
                     (''modifiers'', Dict [(''modifier'',
                        Dict [(''type'', Str ''append''), (''field'', Str ''name''),
                              (''value'', Str '' D3'')])])]])]),
            (''profiles'', Dict [(''profile'',
               Dict [(''name'', Str ''Grim Resolve''), (''typeId'', Str ''9cc3-6d83-4dd3-9b64''),
                     (''characteristics'', Dict [(''characteristic'',
                        Dict [(''name'', Str ''Description''), (''_text'', Str ''Reroll'')])])])])])
   = Inr (initial_abilities\<lparr>core := [''Leader''],
            other := [\<lparr>ab_name = ''Deadly Demise D3'', ab_description = Str '''',
                       ab_showAbility = True, ab_showDescription = False\<rparr>,
                      \<lparr>ab_name = ''Grim Resolve'', ab_description = Str ''Reroll'',
                       ab_showAbility = True, ab_showDescription = True\<rparr>]\<rparr>)"
proof -
  let ?se = "[(''infoLinks'', Dict [(''infoLink'', Lst [
               Dict [(''name'', Str ''Leader'')],
               Dict [(''name'', Str ''Deadly Demise''),
                     (''modifiers'', Dict [(''modifier'',
                        Dict [(''type'', Str ''append''), (''field'', Str ''name''),
                              (''value'', Str '' D3'')])])]])]),
            (''profiles'', Dict [(''profile'',
               Dict [(''name'', Str ''Grim Resolve''), (''typeId'', Str ''9cc3-6d83-4dd3-9b64''),
                     (''characteristics'', Dict [(''characteristic'',
                        Dict [(''name'', Str ''Description''), (''_text'', Str ''Reroll'')])])])])]"
  have links: "section_of ?se ''infoLinks'' ''infoLink'' wf_info_link"
    by (simp add: wf_defs as_list_def)
  have profiles: "section_of ?se ''profiles'' ''profile'' wf_profile"
    by (simp add: wf_defs as_list_def)
  have derived: "derived_abilities ?se =
      [\<lparr>ab_name = ''Leader'', ab_description = Str '''', ab_showAbility = True,
        ab_showDescription = False\<rparr>,
       \<lparr>ab_name = ''Deadly Demise D3'', ab_description = Str '''', ab_showAbility = True,
        ab_showDescription = False\<rparr>,
       \<lparr>ab_name = ''Grim Resolve'', ab_description = Str ''Reroll'', ab_showAbility = True,
        ab_showDescription = True\<rparr>]"
    by (simp add: derived_abilities_def link_ability_def link_rule_name_def name_text_def
        profile_abilities_def is_ability_profile_def is_description_def text_of_def
        section_items_def records_of_def as_list_def is_name_append_def append_value_def)
  show ?thesis
    using core_other_partition [of "{''Leader''}" "Dict ?se" _ ?se] links profiles
    unfolding derived
    by simp
qed

section \<open>Weapons: one group for each name\<close>

lemma group_named_head:
  assumes "n \<in> wp_name ` set ps"
  shows "wg_profiles (group_named ps n) \<noteq> []"
    and "\<forall>p \<in> set (wg_profiles (group_named ps n)). wp_name p = n"
    and "wp_name (hd (wg_profiles (group_named ps n))) = n"
proof -
  show nonempty: "wg_profiles (group_named ps n) \<noteq> []"
    using assms by (auto simp: group_named_def filter_empty_conv)
  show all: "\<forall>p \<in> set (wg_profiles (group_named ps n)). wp_name p = n"
    by (simp add: group_named_def)
  show "wp_name (hd (wg_profiles (group_named ps n))) = n"
    using nonempty all hd_in_set by blast
qed

lemma groups_output:
  assumes "extract_weapons e wt = Inr gs"
  shows "distinct (map (\<lambda>g. wp_name (hd (wg_profiles g))) gs) \<and>
         (\<forall>g \<in> set gs. wg_profiles g \<noteq> [] \<and>
            (\<forall>p \<in> set (wg_profiles g). wp_name p = wp_name (hd (wg_profiles g))))"
proof -
  from assms obtain ps where gs: "gs = map snd (grouped ps)"
    by (auto simp: extract_weapons_grouped py_bind_eq_Inr)
  let ?names = "first_occurrences (map wp_name ps)"
  have gs': "gs = map (group_named ps) ?names"
    using gs by (simp add: grouped_def comp_def)
  have known: "\<And>n. n \<in> set ?names \<Longrightarrow> n \<in> wp_name ` set ps" by simp
  have heads: "\<And>n. n \<in> set ?names \<Longrightarrow> wp_name (hd (wg_profiles (group_named ps n))) = n"
    by (rule group_named_head(3)) (rule known)
  have "map (\<lambda>g. wp_name (hd (wg_profiles g))) gs =
        map (\<lambda>n. wp_name (hd (wg_profiles (group_named ps n)))) ?names"
    unfolding gs' map_map comp_def ..
  also have "\<dots> = map (\<lambda>n. n) ?names"
    by (rule map_cong [OF refl]) (erule heads)
  finally have "map (\<lambda>g. wp_name (hd (wg_profiles g))) gs = ?names" by simp
  then have first: "distinct (map (\<lambda>g. wp_name (hd (wg_profiles g))) gs)"
    by (simp only: distinct_first_occurrences)
  have second: "\<forall>g \<in> set gs. wg_profiles g \<noteq> [] \<and>
            (\<forall>p \<in> set (wg_profiles g). wp_name p = wp_name (hd (wg_profiles g)))"
  proof
    fix g
    assume "g \<in> set gs"
    then have "g \<in> group_named ps ` set ?names"
      unfolding gs' by (simp only: set_map)
    then obtain n where n: "n \<in> set ?names" and g: "g = group_named ps n"
      by (rule imageE)
    have inside: "n \<in> wp_name ` set ps" by (rule known [OF n])
    show "wg_profiles g \<noteq> [] \<and>
        (\<forall>p \<in> set (wg_profiles g). wp_name p = wp_name (hd (wg_profiles g)))"
      unfolding g group_named_head(3) [OF inside]
      by (intro conjI group_named_head(1) [OF inside] group_named_head(2) [OF inside])
  qed
  show ?thesis using first second by (rule conjI)
qed



section \<open>Missing optional fields: the defaults\<close>

lemma section_items_absent: "map_of d outer = None \<Longrightarrow> section_items d outer inner = []"
  by (simp add: section_items_def)

lemma characteristic_text_absent:
  "(\<forall>c \<in> set cs. map_of c ''name'' \<noteq> Some (Str k)) \<Longrightarrow> characteristic_text cs k = None"
  by (simp add: characteristic_text_def filter_empty_conv)

text \<open>
  C9, as amended. Let a selection entry be a record in which every section, profile,
  characteristic, infoLink, modifier, nested entry, category link and cost that is present
  is itself a record, and every profile or infoLink name, appended value and characteristic
  text that is present is text. Whatever is absent from it, no extractor raises: each
  sub-extractor returns the value written out by \<open>abilities_of\<close>, \<open>stats_of\<close>,
  \<open>weapons_of\<close>, \<open>keywords_of\<close> and \<open>points_of\<close>, and the two top-level extractors return
  \<open>datasheet_of\<close> and \<open>enhancement_of\<close> for an entry of their type and nothing otherwise.
  In these values a missing field is left out or at its default: an entry without a name
  gets the empty name; an absent section gives the empty list, the initial ability set or
  the empty description; a profile or infoLink without a name has the empty name (and the
  infoLink's rule name is what its modifiers append); a profile without characteristics
  gives no ability and rows with no characteristic field; a characteristic that is not
  there leaves its field out (\<open>None\<close>); a characteristic without text has the empty text
  and gives no keywords; a cost without a value costs \<open>0\<close>; a category link without a name
  gives no keyword. The stat rows are those of the unit profiles whose resolved name is not
  the empty string, in order: a row is dropped exactly when that name is empty.
\<close>

theorem missing_fields_default:
  assumes "wf_entry se"
  shows "extract_abilities shared_rules (Dict se) = Inr (abilities_of shared_rules se) \<and>
         extract_stats (Dict se) = Inr (stats_of se) \<and>
         extract_weapons (Dict se) weapon_type = Inr (weapons_of se weapon_type) \<and>
         extract_keywords (Dict se) = Inr (keywords_of se) \<and>
         extract_points (Dict se) = Inr (points_of se) \<and>
         extract_datasheet shared_rules uid (Dict se) =
           Inr (if map_of se ''type'' = Some (Str ''model'')
                then Some (datasheet_of shared_rules uid se) else None) \<and>
         extract_enhancements uid (Dict se) =
           Inr (if map_of se ''type'' = Some (Str ''upgrade'')
                then Some (enhancement_of uid se) else None) \<and>
         (map_of se ''name'' = None \<longrightarrow>
            ds_name (datasheet_of shared_rules uid se) = Str '''' \<and>
            ds_composition (datasheet_of shared_rules uid se) = [(''1 '', Str '''')] \<and>
            en_name (enhancement_of uid se) = Str '''') \<and>
         (map_of se ''infoLinks'' = None \<and> map_of se ''profiles'' = None \<longrightarrow>
            abilities_of shared_rules se = initial_abilities) \<and>
         (map_of se ''profiles'' = None \<longrightarrow>
            stats_of se = [] \<and> en_description (enhancement_of uid se) = Str '''') \<and>
         (map_of se ''selectionEntries'' = None \<longrightarrow> weapons_of se weapon_type = []) \<and>
         (map_of se ''categoryLinks'' = None \<longrightarrow> keywords_of se = []) \<and>
         (map_of se ''costs'' = None \<longrightarrow> points_of se = []) \<and>
         (\<forall>p. map_of p ''name'' = None \<longrightarrow>
            resolved_name p = Str '''' \<and> name_text p = '''' \<and>
            wp_name (weapon_row p) = '''' \<and>
            (\<forall>x \<in> set (profile_abilities p). ab_name x = '''')) \<and>
         (\<forall>p. map_of p ''characteristics'' = None \<longrightarrow>
            profile_abilities p = [] \<and>
            stat_row p =
              \<lparr>st_active = True, st_name = resolved_name p, st_showName = False,
               st_showDamagedMarker = False, st_m = None, st_t = None, st_sv = None,
               st_w = None, st_ld = None, st_oc = None\<rparr> \<and>
            weapon_row p =
              \<lparr>wp_active = True, wp_name = name_text p, wp_range = None, wp_attacks = None,
               wp_skill = None, wp_strength = None, wp_ap = None, wp_damage = None,
               wp_keywords = None\<rparr>) \<and>
         (\<forall>cs k. (\<forall>c \<in> set cs. map_of c ''name'' \<noteq> Some (Str k)) \<longrightarrow>
            characteristic_text cs k = None) \<and>
         (\<forall>c. map_of c ''_text'' = None \<longrightarrow> text_of c = Str '''' \<and> \<not> is_keywords c) \<and>
         (\<forall>c. map_of c ''value'' = None \<longrightarrow> pt_cost (point_row c) = Str ''0'') \<and>
         (\<forall>link. map_of link ''name'' = None \<longrightarrow>
            link_rule_name link =
              concat (map append_value
                (filter is_name_append (section_items link ''modifiers'' ''modifier'')))) \<and>
         (map_of se ''type'' = Some (Str ''model'') \<and> map_of se ''name'' = None \<longrightarrow>
            (\<exists>d. extract_datasheet shared_rules uid (Dict se) = Inr (Some d) \<and>
                 ds_name d = Str '''')) \<and>
         (map_of se ''type'' = Some (Str ''upgrade'') \<and> map_of se ''name'' = None \<longrightarrow>
            (\<exists>en. extract_enhancements uid (Dict se) = Inr (Some en) \<and>
                  en_name en = Str '''' \<and>
                  (map_of se ''profiles'' = None \<longrightarrow> en_description en = Str '''')))"
proof -
  have ab: "extract_abilities shared_rules (Dict se) = Inr (abilities_of shared_rules se)"
    using assms by (simp add: extract_abilities_wf wf_entry_def abilities_of_def)
  have st: "extract_stats (Dict se) = Inr (stats_of se)"
    using extract_stats_wf [OF assms] by (simp add: stats_of_def)
  have wp: "extract_weapons (Dict se) weapon_type = Inr (weapons_of se weapon_type)"
    using assms by (simp add: extract_weapons_wf wf_entry_def weapons_of_def)
  have kw: "extract_keywords (Dict se) = Inr (keywords_of se)"
    using assms by (simp add: extract_keywords_wf wf_entry_def)
  have pt: "extract_points (Dict se) = Inr (points_of se)"
    using assms by (simp add: extract_points_wf wf_entry_def)
  have ds: "extract_datasheet shared_rules uid (Dict se) =
           Inr (if map_of se ''type'' = Some (Str ''model'')
                then Some (datasheet_of shared_rules uid se) else None)"
    by (rule extract_datasheet_wf [OF assms])
  have en: "extract_enhancements uid (Dict se) =
           Inr (if map_of se ''type'' = Some (Str ''upgrade'')
                then Some (enhancement_of uid se) else None)"
    using assms by (simp add: extract_enhancements_wf wf_entry_def)
  have d1: "map_of se ''name'' = None \<longrightarrow>
            ds_name (datasheet_of shared_rules uid se) = Str '''' \<and>
            ds_composition (datasheet_of shared_rules uid se) = [(''1 '', Str '''')] \<and>
            en_name (enhancement_of uid se) = Str ''''"
    by (simp add: datasheet_of_def enhancement_of_def resolved_name_def)
  have d2: "map_of se ''infoLinks'' = None \<and> map_of se ''profiles'' = None \<longrightarrow>
            abilities_of shared_rules se = initial_abilities"
    by (simp add: abilities_of_def derived_abilities_def section_items_absent)
  have d3: "map_of se ''profiles'' = None \<longrightarrow>
            stats_of se = [] \<and> en_description (enhancement_of uid se) = Str ''''"
    by (simp add: stats_of_def enhancement_of_def enhancement_descriptions_def
        section_items_absent)
  have d4: "map_of se ''selectionEntries'' = None \<longrightarrow> weapons_of se weapon_type = []"
    by (simp add: weapons_of_def weapon_profiles_def section_items_absent first_occurrences_def)
  have d5: "map_of se ''categoryLinks'' = None \<longrightarrow> keywords_of se = []"
    by (simp add: keywords_of_def section_items_absent)
  have d6: "map_of se ''costs'' = None \<longrightarrow> points_of se = []"
    by (simp add: points_of_def section_items_absent)
  have d7: "\<forall>p. map_of p ''name'' = None \<longrightarrow>
            resolved_name p = Str '''' \<and> name_text p = '''' \<and>
            wp_name (weapon_row p) = '''' \<and>
            (\<forall>x \<in> set (profile_abilities p). ab_name x = '''')"
    by (auto simp: resolved_name_def name_text_def weapon_row_def Let_def profile_abilities_def)
  have d8: "\<forall>p. map_of p ''characteristics'' = None \<longrightarrow>
            profile_abilities p = [] \<and>
            stat_row p =
              \<lparr>st_active = True, st_name = resolved_name p, st_showName = False,
               st_showDamagedMarker = False, st_m = None, st_t = None, st_sv = None,
               st_w = None, st_ld = None, st_oc = None\<rparr> \<and>
            weapon_row p =
              \<lparr>wp_active = True, wp_name = name_text p, wp_range = None, wp_attacks = None,
               wp_skill = None, wp_strength = None, wp_ap = None, wp_damage = None,
               wp_keywords = None\<rparr>"
    by (simp add: profile_abilities_def stat_row_def weapon_row_def Let_def
        section_items_absent characteristic_text_def last_match_def)
  have d9: "\<forall>cs k. (\<forall>c \<in> set cs. map_of c ''name'' \<noteq> Some (Str k)) \<longrightarrow>
            characteristic_text cs k = None"
    using characteristic_text_absent by blast
  have d10: "\<forall>c. map_of c ''_text'' = None \<longrightarrow> text_of c = Str '''' \<and> \<not> is_keywords c"
    by (simp add: text_of_def is_keywords_def text_string_def)
  have d11: "\<forall>c. map_of c ''value'' = None \<longrightarrow> pt_cost (point_row c) = Str ''0''"
    by (simp add: point_row_def)
  have d12: "\<forall>link. map_of link ''name'' = None \<longrightarrow>
            link_rule_name link =
              concat (map append_value
                (filter is_name_append (section_items link ''modifiers'' ''modifier'')))"
    by (simp add: link_rule_name_def name_text_def)
  have d13: "map_of se ''type'' = Some (Str ''model'') \<and> map_of se ''name'' = None \<longrightarrow>
            (\<exists>d. extract_datasheet shared_rules uid (Dict se) = Inr (Some d) \<and>
                 ds_name d = Str '''')"
    using ds d1 by simp
  have d14: "map_of se ''type'' = Some (Str ''upgrade'') \<and> map_of se ''name'' = None \<longrightarrow>
            (\<exists>en. extract_enhancements uid (Dict se) = Inr (Some en) \<and>
                  en_name en = Str '''' \<and>
                  (map_of se ''profiles'' = None \<longrightarrow> en_description en = Str ''''))"
    using en d1 d3 by simp
  show ?thesis
    by (intro conjI ab st wp kw pt ds en d1 d2 d3 d4 d5 d6 d7 d8 d9 d10 d11 d12 d13 d14)
qed

theorem missing_fields_default_witness:
  "extract_datasheet {} ''u''
     (Dict [(''type'', Str ''model''),
            (''profiles'', Dict [(''profile'', Lst [
               Dict [(''typeId'', Str ''c547-1836-d8a-ff4f''), (''name'', Str ''Azrael''),
                     (''characteristics'', Dict [(''characteristic'', Lst [
                        Dict [(''name'', Str ''M''), (''_text'', Str ''6'')],
                        Dict [(''name'', Str ''T'')]])])],
               Dict [(''typeId'', Str ''c547-1836-d8a-ff4f'')],
               Dict [(''typeId'', Str ''9cc3-6d83-4dd3-9b64''),
                     (''characteristics'', Dict [(''characteristic'',
                        Dict [(''name'', Str ''Description'')])])]])]),
            (''selectionEntries'', Dict [(''selectionEntry'',
               Dict [(''profiles'', Dict [(''profile'',
                  Dict [(''typeId'', Str ''8a40-4aaa-c780-9046'')])])])])])
   = Inr (Some
       \<lparr>ds_id = ''u'', ds_name = Str '''', ds_cardType = ''DataCard'',
        ds_factions = [''Dark Angels''], ds_faction_id = ''CHDA'', ds_source = ''40k-10e'',
        ds_abilities = initial_abilities\<lparr>other :=
          [\<lparr>ab_name = '''', ab_description = Str '''', ab_showAbility = True,
            ab_showDescription = True\<rparr>]\<rparr>,
        ds_stats =
          [\<lparr>st_active = True, st_name = Str ''Azrael'', st_showName = False,
            st_showDamagedMarker = False, st_m = Some (Str ''6''), st_t = Some (Str ''''),
            st_sv = None, st_w = None, st_ld = None, st_oc = None\<rparr>],
        ds_rangedWeapons = [],
        ds_meleeWeapons =
          [\<lparr>wg_active = True, wg_profiles =
             [\<lparr>wp_active = True, wp_name = '''', wp_range = None, wp_attacks = None,
               wp_skill = None, wp_strength = None, wp_ap = None, wp_damage = None,
               wp_keywords = None\<rparr>]\<rparr>],
        ds_keywords = [], ds_points = [], ds_composition = [(''1 '', Str '''')],
        ds_fluff = '''', ds_leader = '''', ds_loadout = '''', ds_transport = '''',
        ds_wargear = []\<rparr>) \<and>
   extract_enhancements ''u'' (Dict [(''type'', Str ''upgrade'')])
   = Inr (Some
       \<lparr>en_name = Str '''', en_id = ''u'', en_cost = ''0'', en_keywords = [''Dark Angels''],
        en_excludes = [], en_description = Str '''', en_faction_id = ''CHDA'',
        en_source = ''40k-10e'', en_cardType = ''enhancement'',
        en_detachment = ''Wrath of the Rock''\<rparr>)"
proof -
  let ?se = "[(''type'', Str ''model''),
            (''profiles'', Dict [(''profile'', Lst [
               Dict [(''typeId'', Str ''c547-1836-d8a-ff4f''), (''name'', Str ''Azrael''),
                     (''characteristics'', Dict [(''characteristic'', Lst [
                        Dict [(''name'', Str ''M''), (''_text'', Str ''6'')],
                        Dict [(''name'', Str ''T'')]])])],
               Dict [(''typeId'', Str ''c547-1836-d8a-ff4f'')],
               Dict [(''typeId'', Str ''9cc3-6d83-4dd3-9b64''),
                     (''characteristics'', Dict [(''characteristic'',
                        Dict [(''name'', Str ''Description'')])])]])]),
            (''selectionEntries'', Dict [(''selectionEntry'',
               Dict [(''profiles'', Dict [(''profile'',
                  Dict [(''typeId'', Str ''8a40-4aaa-c780-9046'')])])])])]"
  have wf1: "wf_entry ?se"
    by (simp add: wf_defs as_list_def)
  have wf2: "wf_entry [(''type'', Str ''upgrade'')]"
    by (simp add: wf_defs)
  have run1: "extract_datasheet {} ''u'' (Dict ?se)
   = Inr (Some
       \<lparr>ds_id = ''u'', ds_name = Str '''', ds_cardType = ''DataCard'',
        ds_factions = [''Dark Angels''], ds_faction_id = ''CHDA'', ds_source = ''40k-10e'',
        ds_abilities = initial_abilities\<lparr>other :=
          [\<lparr>ab_name = '''', ab_description = Str '''', ab_showAbility = True,
            ab_showDescription = True\<rparr>]\<rparr>,
        ds_stats =
          [\<lparr>st_active = True, st_name = Str ''Azrael'', st_showName = False,
            st_showDamagedMarker = False, st_m = Some (Str ''6''), st_t = Some (Str ''''),
            st_sv = None, st_w = None, st_ld = None, st_oc = None\<rparr>],
        ds_rangedWeapons = [],
        ds_meleeWeapons =
          [\<lparr>wg_active = True, wg_profiles =
             [\<lparr>wp_active = True, wp_name = '''', wp_range = None, wp_attacks = None,
               wp_skill = None, wp_strength = None, wp_ap = None, wp_damage = None,
               wp_keywords = None\<rparr>]\<rparr>],
        ds_keywords = [], ds_points = [], ds_composition = [(''1 '', Str '''')],
        ds_fluff = '''', ds_leader = '''', ds_loadout = '''', ds_transport = '''',
        ds_wargear = []\<rparr>)"
    by (simp add: extractor_defs initial_abilities_def)
  have run2: "extract_enhancements ''u'' (Dict [(''type'', Str ''upgrade'')])
   = Inr (Some
       \<lparr>en_name = Str '''', en_id = ''u'', en_cost = ''0'', en_keywords = [''Dark Angels''],
        en_excludes = [], en_description = Str '''', en_faction_id = ''CHDA'',
        en_source = ''40k-10e'', en_cardType = ''enhancement'',
        en_detachment = ''Wrath of the Rock''\<rparr>)"
    by (simp add: extractor_defs)
  from missing_fields_default [OF wf1, of "{}" "''ranged''" "''u''"]
    missing_fields_default [OF wf2, of "{}" "''ranged''" "''u''"]
  show ?thesis using run1 run2 by simp
qed

section \<open>Missing optional fields: where the claim stops\<close>

text \<open>
  C9 as stated fails when the missing name leaves a characteristic with text and no
  attribute at all: the normalizer turns \<^verbatim>\<open><characteristic>6</characteristic>\<close> into the bare
  text, which has no \<^verbatim>\<open>get\<close>, and the extraction of the stats, and with it of the datasheet,
  ends with \<^verbatim>\<open>AttributeError\<close>.
\<close>

theorem missing_fields_default_counterexample:
  "parse_xml_to_dict azrael_bare_characteristic =
     Dict [(''type'', Str ''model''), (''name'', Str ''Azrael''),
           (''profiles'', Dict [(''profile'',
              Dict [(''typeId'', Str ''c547-1836-d8a-ff4f''), (''name'', Str ''Azrael''),
                    (''characteristics'', Dict [(''characteristic'', Str ''6'')])])])] \<and>
   extract_stats (parse_xml_to_dict azrael_bare_characteristic) = Inl AttributeError \<and>
   extract_datasheet {} ''u'' (parse_xml_to_dict azrael_bare_characteristic) = Inl AttributeError"
proof -
  have parsed: "parse_xml_to_dict azrael_bare_characteristic =
     Dict [(''type'', Str ''model''), (''name'', Str ''Azrael''),
           (''profiles'', Dict [(''profile'',
              Dict [(''typeId'', Str ''c547-1836-d8a-ff4f''), (''name'', Str ''Azrael''),
                    (''characteristics'', Dict [(''characteristic'', Str ''6'')])])])]"
    by (simp add: azrael_bare_characteristic_def normalizer_defs)
  have stats: "extract_stats (parse_xml_to_dict azrael_bare_characteristic) = Inl AttributeError"
    unfolding parsed
    by (simp add: extract_stats_def stat_profile_step_def stat_char_step_def over_section_Dict
        lookup_key_Dict as_list_def py_get_def py_get_default_def)
  have "extract_abilities {} (parse_xml_to_dict azrael_bare_characteristic) = Inr initial_abilities"
    unfolding parsed
    by (simp add: extract_abilities_def ability_profile_step_def over_section_Dict
        lookup_key_Dict as_list_def py_get_def)
  then have "extract_datasheet {} ''u'' (parse_xml_to_dict azrael_bare_characteristic)
      = Inl AttributeError"
    using stats by (simp add: extract_datasheet_def parsed py_get_def py_get_default_def)
  then show ?thesis using parsed stats by simp
qed

section \<open>The constant part of an ability set\<close>

lemma classify_keeps:
  "keeps_constants a \<Longrightarrow> classify_ability sr n d b a = Inr a' \<Longrightarrow> keeps_constants a'"
  by (auto simp: classify_ability_def keeps_constants_def split: ssv.splits if_splits)

lemma info_link_step_keeps:
  "keeps_constants a \<Longrightarrow> info_link_step sr il a = Inr a' \<Longrightarrow> keeps_constants a'"
  by (auto simp: info_link_step_def py_bind_eq_Inr dest: classify_keeps)

lemma ability_char_step_keeps:
  "keeps_constants a \<Longrightarrow> ability_char_step sr p c a = Inr a' \<Longrightarrow> keeps_constants a'"
  by (auto simp: ability_char_step_def py_bind_eq_Inr dest: classify_keeps split: if_splits)

lemma ability_profile_step_keeps:
  "keeps_constants a \<Longrightarrow> ability_profile_step sr p a = Inr a' \<Longrightarrow> keeps_constants a'"
  by (auto simp: ability_profile_step_def py_bind_eq_Inr split: if_splits
      elim: over_section_invariant [where P = keeps_constants] dest: ability_char_step_keeps)

lemma extract_abilities_keeps:
  assumes "extract_abilities sr e = Inr a"
  shows "keeps_constants a"
proof -
  from assms obtain a1 where
    a1: "over_section e ''infoLinks'' ''infoLink'' (info_link_step sr) initial_abilities = Inr a1"
    and a: "over_section e ''profiles'' ''profile'' (ability_profile_step sr) a1 = Inr a"
    by (auto simp: extract_abilities_def py_bind_eq_Inr)
  have "keeps_constants initial_abilities"
    by (simp add: keeps_constants_def initial_abilities_def)
  then have "keeps_constants a1"
    using over_section_invariant [OF a1, of keeps_constants] info_link_step_keeps by blast
  then show ?thesis
    using over_section_invariant [OF a, of keeps_constants] ability_profile_step_keeps by blast
qed

text \<open>
  C10. Whatever the selection entry and the registry, an ability set that
  \<^verbatim>\<open>extract_abilities\<close> returns has \<open>faction\<close> equal to \<open>["Oath of Moment"]\<close>, an \<open>invul\<close>
  block with value \<open>5+\<close>, \<open>showInvulnerableSave\<close> true and \<open>showInfo\<close> false, and a
  \<open>damaged\<close> block with empty description and range and \<open>showDamagedAbility\<close> false.
\<close>

theorem abilities_constant_fields:
  assumes "extract_abilities shared_rules selection_entry = Inr a"
  shows "faction a = [''Oath of Moment''] \<and>
         inv_value (invul a) = ''5+'' \<and> inv_showInvulnerableSave (invul a) \<and>
         \<not> inv_showInfo (invul a) \<and>
         dmg_description (damaged a) = '''' \<and> dmg_range (damaged a) = '''' \<and>
         \<not> dmg_showDamagedAbility (damaged a)"
proof -
  have "a\<lparr>core := [], other := []\<rparr> = initial_abilities"
    using extract_abilities_keeps [OF assms] by (simp add: keeps_constants_def)
  then have "faction a = faction initial_abilities" "invul a = invul initial_abilities"
    "damaged a = damaged initial_abilities"
    by (metis ability_set.select_convs ability_set.surjective ability_set.update_convs)+
  then show ?thesis by (simp add: initial_abilities_def)
qed

theorem abilities_constant_fields_witness:
  "extract_abilities {''Leader''}
     (Dict [(''infoLinks'', Dict [(''infoLink'',
        Lst [Dict [(''name'', Str ''Leader'')], Dict [(''name'', Str ''Grim Resolve'')]])])])
   = Inr (initial_abilities\<lparr>core := [''Leader''],
            other := [\<lparr>ab_name = ''Grim Resolve'', ab_description = Str '''',
                       ab_showAbility = True, ab_showDescription = False\<rparr>]\<rparr>) \<and>
   faction (initial_abilities\<lparr>core := [''Leader''],
            other := [\<lparr>ab_name = ''Grim Resolve'', ab_description = Str '''',
                       ab_showAbility = True, ab_showDescription = False\<rparr>]\<rparr>)
     = [''Oath of Moment'']"
proof -
  have run: "extract_abilities {''Leader''}
     (Dict [(''infoLinks'', Dict [(''infoLink'',
        Lst [Dict [(''name'', Str ''Leader'')], Dict [(''name'', Str ''Grim Resolve'')]])])])
   = Inr (initial_abilities\<lparr>core := [''Leader''],
            other := [\<lparr>ab_name = ''Grim Resolve'', ab_description = Str '''',
                       ab_showAbility = True, ab_showDescription = False\<rparr>]\<rparr>)"
    by (simp add: py_defs abilities_defs)
  from abilities_constant_fields [OF run] show ?thesis using run by simp
qed

end
